theory Spec2Isabelle
  imports Complex_Main
begin

section \<open>The deals router of the CRM backend (src/backend/deals.js)\<close>

text \<open>
  The router holds no state of its own: every handler is one parameterised SQL statement
  against the table \<open>deals\<close>. The table is a list of rows; a handler takes the table and
  returns the table as it leaves it, with its answer: an error (the HTTP status) or the
  JSON payload. Strings are lists of 8-bit characters, numbers of the column type \<open>numeric\<close>
  are rationals, timestamps are natural numbers.
\<close>

subsection \<open>Rows, request bodies and errors\<close>

datatype deal_status = Prospect | Qualification | Proposition | Negociation | Gagne | Perdu

type_synonym timestamp = nat

text \<open>
  A row of the table, with the columns that the statements and the type \<open>Deal\<close> of the
  pipeline page name. The column \<open>updated_at\<close>, which no statement of the router reads
  or assigns, is left out. The id is compared as a text.
\<close>

record deal =
  deal_id :: string
  title :: string
  description :: "string option"
  status :: deal_status
  amount :: rat
  probability :: rat
  weighted_amount :: rat
  contact_id :: "string option"
  company_id :: "string option"
  assigned_to :: "string option"
  expected_close_date :: "string option"
  closed_at :: "timestamp option"
  created_at :: timestamp

text \<open>
  \<open>req.body\<close> of POST and PUT, at the types of the fields: a field that is absent
  (\<open>undefined\<close>) or \<open>null\<close> is \<open>None\<close>; the handlers treat the two alike
  (\<open>?.\<close>, \<open>||\<close>, \<open>??\<close> and \<open>includes\<close> do not tell them apart).
\<close>

record body =
  b_title :: "string option"
  b_description :: "string option"
  b_status :: "string option"
  b_amount :: "rat option"
  b_contact_id :: "string option"
  b_company_id :: "string option"
  b_assigned_to :: "string option"
  b_expected_close_date :: "string option"

text \<open>\<open>req.query\<close> of GET /deals.\<close>

record query =
  q_status :: "string option"
  q_assigned_to :: "string option"
  q_q :: "string option"

text \<open>
  The answers that are not a success: 400 "Titre requis", 400 "Statut invalide",
  404 "Deal introuvable", and 500 from the \<open>catch\<close> of every handler.
\<close>

datatype error = ValidationError | InvalidStatus | NotFound | ServerError

subsection \<open>JavaScript helpers\<close>

definition ALLOWED_STATUSES :: "string list" where
  "ALLOWED_STATUSES =
     [''prospect'', ''qualification'', ''proposition'', ''negociation'', ''gagne'', ''perdu'']"

text \<open>White space of \<open>String.prototype.trim\<close> among the 8-bit characters.\<close>

definition is_ws :: "char \<Rightarrow> bool" where
  "is_ws c = (c \<in> set [CHR 0x09, CHR 0x0A, CHR 0x0B, CHR 0x0C, CHR 0x0D, CHR 0x20, CHR 0xA0])"

definition trim :: "string \<Rightarrow> string" where
  "trim s = rev (dropWhile is_ws (rev (dropWhile is_ws s)))"

text \<open>A string value is truthy when it is present and not empty.\<close>

definition truthy :: "string option \<Rightarrow> bool" where
  "truthy v = (case v of None \<Rightarrow> False | Some s \<Rightarrow> s \<noteq> [])"

text \<open>\<open>v || null\<close>\<close>

definition or_null :: "string option \<Rightarrow> string option" where
  "or_null v = (if truthy v then v else None)"

text \<open>\<open>v || d\<close>\<close>

definition or_else :: "string option \<Rightarrow> string \<Rightarrow> string" where
  "or_else v d = (case v of None \<Rightarrow> d | Some s \<Rightarrow> if s = [] then d else s)"

text \<open>\<open>v ?? d\<close>\<close>

definition nullish :: "'a option \<Rightarrow> 'a \<Rightarrow> 'a" where
  "nullish v d = (case v of None \<Rightarrow> d | Some x \<Rightarrow> x)"

text \<open>\<open>v?.trim()\<close>\<close>

definition opt_trim :: "string option \<Rightarrow> string option" where
  "opt_trim v = map_option trim v"

text \<open>\<open>ALLOWED_STATUSES.includes(v)\<close>\<close>

definition array_includes :: "string list \<Rightarrow> string option \<Rightarrow> bool" where
  "array_includes xs v = (case v of None \<Rightarrow> False | Some s \<Rightarrow> s \<in> set xs)"

subsection \<open>The table as the statements see it\<close>

text \<open>
  The DDL of the table \<open>deals\<close> is not among the sources. What the statements need of
  it is stated here from the specification: the enum type of the column \<open>status\<close>, the
  columns that the store derives, and the values a new row gets in the columns that the
  INSERT does not list.
\<close>

text \<open>
  Modelled from the spec: the enum type \<open>deal_status\<close> (its DDL is missing), with the
  six values of the specification, which are those of \<open>ALLOWED_STATUSES\<close>. This is the
  cast \<open>$n::deal_status\<close>; a text outside the enum makes the statement fail.
\<close>

definition deal_status_cast :: "string \<Rightarrow> deal_status option" where
  "deal_status_cast s =
     map_of [(''prospect'', Prospect), (''qualification'', Qualification),
             (''proposition'', Proposition), (''negociation'', Negociation),
             (''gagne'', Gagne), (''perdu'', Perdu)] s"

text \<open>The cast \<open>status::text\<close>.\<close>

fun status_text :: "deal_status \<Rightarrow> string" where
  "status_text Prospect = ''prospect''"
| "status_text Qualification = ''qualification''"
| "status_text Proposition = ''proposition''"
| "status_text Negociation = ''negociation''"
| "status_text Gagne = ''gagne''"
| "status_text Perdu = ''perdu''"

text \<open>
  Modelled from the spec: the derived columns \<open>probability\<close> and \<open>weighted_amount\<close>
  (their DDL is missing; no statement of the router assigns them). The specification has
  the probability implied by the status and \<open>weighted_amount\<close> kept by the store as
  \<open>amount * probability / 100\<close>. The probability of each stage is the parameter \<open>sp\<close>;
  the store derives both columns whenever a row is written.
\<close>

definition store_row :: "(deal_status \<Rightarrow> rat) \<Rightarrow> deal \<Rightarrow> deal" where
  "store_row sp d =
     d\<lparr>probability := sp (status d), weighted_amount := amount d * sp (status d) / 100\<rparr>"

text \<open>
  Modelled from the spec: the values of the columns that the INSERT does not list (the
  column defaults of the missing DDL): a created row has \<open>closed_at\<close> null and the
  time of its creation. The statement is
  \<open>INSERT INTO deals (title, description, status, amount, contact_id, company_id,
  assigned_to, expected_close_date) VALUES (...)\<close>: the eight listed columns take the
  parameters. The new id \<open>i\<close> and the time \<open>now\<close> come from the database.
\<close>

definition insert_row ::
  "(deal_status \<Rightarrow> rat) \<Rightarrow> timestamp \<Rightarrow> string \<Rightarrow> string \<Rightarrow> string option \<Rightarrow> deal_status \<Rightarrow>
   rat \<Rightarrow> string option \<Rightarrow> string option \<Rightarrow> string option \<Rightarrow> string option \<Rightarrow> deal" where
  "insert_row sp now i t de st am co cp au ex =
     store_row sp
       \<lparr>deal_id = i, title = t, description = de, status = st, amount = am,
        probability = 0, weighted_amount = 0,
        contact_id = co, company_id = cp, assigned_to = au, expected_close_date = ex,
        closed_at = None, created_at = now\<rparr>"

text \<open>\<open>CASE WHEN $n::deal_status IN ('gagne','perdu') THEN now() ELSE NULL END\<close>\<close>

definition closed_at_for :: "timestamp \<Rightarrow> deal_status \<Rightarrow> timestamp option" where
  "closed_at_for now st = (if st \<in> {Gagne, Perdu} then Some now else None)"

text \<open>
  \<open>UPDATE deals SET ... WHERE id = i RETURNING *\<close> with the assignment \<open>f\<close>: the rows
  with that id are rewritten in place, and the statement returns them.
\<close>

definition update_where :: "(deal_status \<Rightarrow> rat) \<Rightarrow> string \<Rightarrow> (deal \<Rightarrow> deal) \<Rightarrow> deal list \<Rightarrow> deal list" where
  "update_where sp i f ds = map (\<lambda>d. if deal_id d = i then store_row sp (f d) else d) ds"

definition returning :: "string \<Rightarrow> deal list \<Rightarrow> deal list" where
  "returning i ds = filter (\<lambda>d. deal_id d = i) ds"

subsection \<open>POST /deals\<close>

definition post_deal ::
  "(deal_status \<Rightarrow> rat) \<Rightarrow> timestamp \<Rightarrow> string \<Rightarrow> body \<Rightarrow> deal list \<Rightarrow> deal list \<times> (error + deal)" where
  "post_deal sp now i b ds =
     (if \<not> truthy (opt_trim (b_title b)) then (ds, Inl ValidationError)
      else
        let finalStatus = or_else (b_status b) ''prospect'' in
        if \<not> array_includes ALLOWED_STATUSES (Some finalStatus) then (ds, Inl InvalidStatus)
        else
          (case (opt_trim (b_title b), deal_status_cast finalStatus) of
             (Some t, Some st) \<Rightarrow>
               let d = insert_row sp now i
                         t
                         (or_null (opt_trim (b_description b)))
                         st
                         (nullish (b_amount b) 0)
                         (or_null (b_contact_id b))
                         (or_null (b_company_id b))
                         (or_null (b_assigned_to b))
                         (or_null (b_expected_close_date b))
               in (ds @ [d], Inr d)
           | _ \<Rightarrow> (ds, Inl ServerError)))"

subsection \<open>PUT /deals/:id\<close>

text \<open>The SET clause of the statement, with the trimmed title \<open>t\<close> and the cast status \<open>st\<close>.\<close>

definition put_set :: "string \<Rightarrow> deal_status \<Rightarrow> body \<Rightarrow> timestamp \<Rightarrow> deal \<Rightarrow> deal" where
  "put_set t st b now d =
     d\<lparr>title := t,
       description := or_null (opt_trim (b_description b)),
       status := st,
       amount := nullish (b_amount b) 0,
       contact_id := or_null (b_contact_id b),
       company_id := or_null (b_company_id b),
       assigned_to := or_null (b_assigned_to b),
       expected_close_date := or_null (b_expected_close_date b),
       closed_at := closed_at_for now st\<rparr>"

definition put_deal ::
  "(deal_status \<Rightarrow> rat) \<Rightarrow> timestamp \<Rightarrow> string \<Rightarrow> body \<Rightarrow> deal list \<Rightarrow> deal list \<times> (error + deal)" where
  "put_deal sp now i b ds =
     (if \<not> truthy (opt_trim (b_title b)) then (ds, Inl ValidationError)
      else if truthy (b_status b) \<and> \<not> array_includes ALLOWED_STATUSES (b_status b)
      then (ds, Inl InvalidStatus)
      else
        let finalStatus = or_else (b_status b) ''prospect'' in
        (case (opt_trim (b_title b), deal_status_cast finalStatus) of
           (Some t, Some st) \<Rightarrow>
             let ds' = update_where sp i (put_set t st b now) ds
             in (case returning i ds' of
                   [] \<Rightarrow> (ds', Inl NotFound)
                 | d # _ \<Rightarrow> (ds', Inr d))
         | _ \<Rightarrow> (ds, Inl ServerError)))"

subsection \<open>PATCH /deals/:id/status\<close>

text \<open>The SET clause of the statement.\<close>

definition patch_set :: "timestamp \<Rightarrow> deal_status \<Rightarrow> deal \<Rightarrow> deal" where
  "patch_set now st d = d\<lparr>status := st, closed_at := closed_at_for now st\<rparr>"

definition patch_status ::
  "(deal_status \<Rightarrow> rat) \<Rightarrow> timestamp \<Rightarrow> string \<Rightarrow> string option \<Rightarrow> deal list \<Rightarrow> deal list \<times> (error + deal)" where
  "patch_status sp now i s ds =
     (if \<not> array_includes ALLOWED_STATUSES s then (ds, Inl InvalidStatus)
      else
        (case Option.bind s deal_status_cast of
           None \<Rightarrow> (ds, Inl ServerError)
         | Some st \<Rightarrow>
             let ds' = update_where sp i (patch_set now st) ds
             in (case returning i ds' of
                   [] \<Rightarrow> (ds', Inl NotFound)
                 | d # _ \<Rightarrow> (ds', Inr d))))"

subsection \<open>DELETE /deals/:id\<close>

text \<open>\<open>DELETE FROM deals WHERE id=$1 RETURNING *\<close>; the answer on success is \<open>{ok: true}\<close>.\<close>

definition delete_deal :: "string \<Rightarrow> deal list \<Rightarrow> deal list \<times> (error + unit)" where
  "delete_deal i ds =
     (let ds' = filter (\<lambda>d. deal_id d \<noteq> i) ds
      in (case returning i ds of
            [] \<Rightarrow> (ds', Inl NotFound)
          | _ # _ \<Rightarrow> (ds', Inr ())))"

subsection \<open>GET /deals and GET /deals/:id\<close>

text \<open>
  PostgreSQL's \<open>LIKE\<close>: in the pattern \<open>%\<close> stands for any string, \<open>_\<close> for any one
  character, a backslash makes the character after it literal, and a pattern that ends in
  a lone backslash is an error.
\<close>

datatype like_tok = AnyString | AnyChar | Lit char

definition like_tok_of :: "char \<Rightarrow> like_tok" where
  "like_tok_of c = (if c = CHR ''%'' then AnyString else if c = CHR ''_'' then AnyChar else Lit c)"

fun like_pattern :: "string \<Rightarrow> like_tok list option" where
  "like_pattern [] = Some []"
| "like_pattern [c] = (if c = CHR 0x5C then None else Some [like_tok_of c])"
| "like_pattern (c # e # es) =
     (if c = CHR 0x5C then map_option (Cons (Lit e)) (like_pattern es)
      else map_option (Cons (like_tok_of c)) (like_pattern (e # es)))"

fun like_match :: "like_tok list \<Rightarrow> string \<Rightarrow> bool" where
  "like_match [] s = (s = [])"
| "like_match (AnyString # p) [] = like_match p []"
| "like_match (AnyString # p) (x # xs) = (like_match p (x # xs) \<or> like_match (AnyString # p) xs)"
| "like_match (AnyChar # p) [] = False"
| "like_match (AnyChar # p) (x # xs) = like_match p xs"
| "like_match (Lit c # p) [] = False"
| "like_match (Lit c # p) (x # xs) = (x = c \<and> like_match p xs)"

text \<open>The three optional conditions of the WHERE clause, each true of a row or not.\<close>

definition status_clause :: "string option \<Rightarrow> deal \<Rightarrow> bool" where
  "status_clause v d =
     (if truthy v \<and> array_includes ALLOWED_STATUSES v
      then Option.bind v deal_status_cast = Some (status d) else True)"

definition assigned_clause :: "string option \<Rightarrow> deal \<Rightarrow> bool" where
  "assigned_clause v d = (if truthy v then assigned_to d = v else True)"

text \<open>
  \<open>LOWER(d.title) LIKE $n\<close> with the parameter \<open>`%${q.toLowerCase()}%`\<close>; \<open>None\<close> when
  the pattern is an error. The two lower-casings are two library functions:
  \<open>String.prototype.toLowerCase\<close> of JavaScript, here \<open>js_lower\<close>, and \<open>LOWER\<close> of the
  database, which goes by the locale of the database, here \<open>sql_lower\<close>. The model takes
  both as parameters and assumes nothing of them.
\<close>

definition title_clause ::
  "(string \<Rightarrow> string) \<Rightarrow> (string \<Rightarrow> string) \<Rightarrow> string option \<Rightarrow> (deal \<Rightarrow> bool) option" where
  "title_clause js_lower sql_lower v =
     (case v of
        None \<Rightarrow> Some (\<lambda>d. True)
      | Some q \<Rightarrow>
          if q = [] then Some (\<lambda>d. True)
          else map_option (\<lambda>p d. like_match p (sql_lower (title d)))
                 (like_pattern (''%'' @ js_lower q @ ''%'')))"

text \<open>
  Modelled from the spec: the tables \<open>contacts\<close>, \<open>companies\<close> and \<open>users\<close> are not among
  the sources; the spec has them as read-only lookup tables keyed by id, so a LEFT JOIN
  adds columns to a row and never multiplies or drops it.
\<close>

record contact =
  c_first_name :: "string option"
  c_last_name :: "string option"
  c_email :: "string option"

record user =
  u_first_name :: "string option"
  u_last_name :: "string option"

record lookups =
  contacts :: "string \<rightharpoonup> contact"
  companies :: "string \<rightharpoonup> string option"
  users :: "string \<rightharpoonup> user"

record display =
  first_name :: "string option"
  last_name :: "string option"
  contact_email :: "string option"
  company_name :: "string option"
  assigned_first_name :: "string option"
  assigned_last_name :: "string option"

definition left_joins :: "lookups \<Rightarrow> deal \<Rightarrow> deal \<times> display" where
  "left_joins lk d =
     (let c = Option.bind (contact_id d) (contacts lk);
          co = Option.bind (company_id d) (companies lk);
          u = Option.bind (assigned_to d) (users lk)
      in (d, \<lparr>first_name = Option.bind c c_first_name,
               last_name = Option.bind c c_last_name,
               contact_email = Option.bind c c_email,
               company_name = Option.bind co id,
               assigned_first_name = Option.bind u u_first_name,
               assigned_last_name = Option.bind u u_last_name\<rparr>))"

text \<open>
  \<open>ORDER BY d.created_at DESC\<close>. SQL leaves the order of rows of equal \<open>created_at\<close>
  open; the model fixes one, and nothing below depends on it.
\<close>

definition order_by_created_at_desc :: "deal list \<Rightarrow> deal list" where
  "order_by_created_at_desc ds = rev (sort_key created_at ds)"

definition list_deals ::
  "(string \<Rightarrow> string) \<Rightarrow> (string \<Rightarrow> string) \<Rightarrow> query \<Rightarrow> lookups \<Rightarrow> deal list \<Rightarrow>
   error + (deal \<times> display) list" where
  "list_deals js_lower sql_lower qy lk ds =
     (case title_clause js_lower sql_lower (q_q qy) of
        None \<Rightarrow> Inl ServerError
      | Some title_ok \<Rightarrow>
          Inr (map (left_joins lk)
                 (order_by_created_at_desc
                    (filter (\<lambda>d. status_clause (q_status qy) d \<and>
                                 assigned_clause (q_assigned_to qy) d \<and> title_ok d) ds))))"

definition get_deal :: "string \<Rightarrow> lookups \<Rightarrow> deal list \<Rightarrow> error + (deal \<times> display)" where
  "get_deal i lk ds =
     (case returning i ds of
        [] \<Rightarrow> Inl NotFound
      | d # _ \<Rightarrow> Inr (left_joins lk d))"

subsection \<open>GET /deals/stats\<close>

text \<open>
  SQL aggregates: \<open>SUM\<close> skips NULL and is NULL when nothing is left, \<open>COUNT(e)\<close>
  counts the rows where \<open>e\<close> is not NULL, a \<open>CASE\<close> without \<open>ELSE\<close> is NULL when no
  branch applies. The casts \<open>::int\<close> and \<open>::numeric\<close> keep the value.
\<close>

fun sql_sum :: "rat option list \<Rightarrow> rat option" where
  "sql_sum [] = None"
| "sql_sum (None # xs) = sql_sum xs"
| "sql_sum (Some x # xs) = (case sql_sum xs of None \<Rightarrow> Some x | Some y \<Rightarrow> Some (x + y))"

definition sql_count :: "'a option list \<Rightarrow> nat" where
  "sql_count xs = length (filter (\<lambda>x. x \<noteq> None) xs)"

definition coalesce :: "'a option \<Rightarrow> 'a \<Rightarrow> 'a" where
  "coalesce v d = (case v of None \<Rightarrow> d | Some x \<Rightarrow> x)"

record summary =
  total_deals :: nat
  total_value :: rat
  weighted_value :: rat
  won_value :: rat
  active_deals :: nat

definition stats_summary :: "deal list \<Rightarrow> summary" where
  "stats_summary ds =
     \<lparr>total_deals = length ds,
      total_value = coalesce (sql_sum (map (\<lambda>d. Some (amount d)) ds)) 0,
      weighted_value = coalesce (sql_sum (map (\<lambda>d. Some (weighted_amount d)) ds)) 0,
      won_value = coalesce (sql_sum (map (\<lambda>d. if status d = Gagne then Some (amount d) else None) ds)) 0,
      active_deals = sql_count (map (\<lambda>d. if status d \<notin> {Gagne, Perdu} then Some (1::nat) else None) ds)\<rparr>"

record stage_row =
  bs_status :: deal_status
  bs_count :: nat
  bs_total :: rat

text \<open>\<open>ARRAY_POSITION(arr, x)\<close>: the index from 1 of the first \<open>x\<close>, NULL when there is none.\<close>

fun array_position :: "'a list \<Rightarrow> 'a \<Rightarrow> nat option" where
  "array_position [] x = None"
| "array_position (y # ys) x = (if y = x then Some 1 else map_option Suc (array_position ys x))"

text \<open>The sort key of \<open>ORDER BY ARRAY_POSITION(...)\<close>; ascending order puts NULL last.\<close>

definition funnel_key :: "deal_status \<Rightarrow> nat" where
  "funnel_key st =
     (case array_position
             [''prospect'', ''qualification'', ''proposition'', ''negociation'', ''gagne'', ''perdu'']
             (status_text st) of
        None \<Rightarrow> 7
      | Some k \<Rightarrow> k)"

text \<open>
  \<open>GROUP BY status\<close> makes one group for each status that occurs; the groups come in
  some order, which the \<open>ORDER BY\<close> then replaces.
\<close>

definition stats_by_status :: "deal list \<Rightarrow> stage_row list" where
  "stats_by_status ds =
     sort_key (\<lambda>r. funnel_key (bs_status r))
       (map (\<lambda>st. let g = filter (\<lambda>d. status d = st) ds
                  in \<lparr>bs_status = st,
                      bs_count = length g,
                      bs_total = coalesce (sql_sum (map (\<lambda>d. Some (amount d)) g)) 0\<rparr>)
            (remdups (map status ds)))"

text \<open>The entry of a stage: its status, the number of its deals, the sum of their amounts.\<close>

definition stage_of :: "deal list \<Rightarrow> deal_status \<Rightarrow> stage_row" where
  "stage_of ds st =
     \<lparr>bs_status = st,
      bs_count = length (filter (\<lambda>d. status d = st) ds),
      bs_total = sum_list (map amount (filter (\<lambda>d. status d = st) ds))\<rparr>"

definition get_stats :: "deal list \<Rightarrow> summary \<times> stage_row list" where
  "get_stats ds = (stats_summary ds, stats_by_status ds)"

subsection \<open>The search as the specification words it\<close>

text \<open>
  "The title contains \<open>q\<close> as a case-insensitive substring": the title, lower-cased by
  the database, has \<open>q\<close>, lower-cased by the handler, at some position.
\<close>

fun starts_with :: "string \<Rightarrow> string \<Rightarrow> bool" where
  "starts_with t [] = True"
| "starts_with [] (c # q) = False"
| "starts_with (x # t) (c # q) = (x = c \<and> starts_with t q)"

fun contains :: "string \<Rightarrow> string \<Rightarrow> bool" where
  "contains [] q = (q = [])"
| "contains (x # t) q = (starts_with (x # t) q \<or> contains t q)"

definition title_contains_ci ::
  "(string \<Rightarrow> string) \<Rightarrow> (string \<Rightarrow> string) \<Rightarrow> string \<Rightarrow> deal \<Rightarrow> bool" where
  "title_contains_ci js_lower sql_lower q d = contains (sql_lower (title d)) (js_lower q)"

text \<open>The characters that \<open>LIKE\<close> does not read literally.\<close>

definition like_meta :: "char \<Rightarrow> bool" where
  "like_meta c = (c = CHR ''%'' \<or> c = CHR ''_'' \<or> c = CHR 0x5C)"

subsection \<open>Sequences of requests\<close>

text \<open>The table after a sequence of writing requests, from the empty table.\<close>

datatype request =
    Create timestamp string body
  | Update timestamp string body
  | Transition timestamp string "string option"
  | Delete string

fun handle :: "(deal_status \<Rightarrow> rat) \<Rightarrow> deal list \<Rightarrow> request \<Rightarrow> deal list" where
  "handle sp ds (Create now i b) = fst (post_deal sp now i b ds)"
| "handle sp ds (Update now i b) = fst (put_deal sp now i b ds)"
| "handle sp ds (Transition now i s) = fst (patch_status sp now i s ds)"
| "handle sp ds (Delete i) = fst (delete_deal i ds)"

definition serve :: "(deal_status \<Rightarrow> rat) \<Rightarrow> request list \<Rightarrow> deal list" where
  "serve sp rs = foldl (handle sp) [] rs"

text \<open>The relation between the three money columns of a row.\<close>

definition weighted_ok :: "deal \<Rightarrow> bool" where
  "weighted_ok d = (weighted_amount d = amount d * probability d / 100)"

subsection \<open>Sample data\<close>

definition demo_deal :: deal where
  "demo_deal =
     \<lparr>deal_id = ''7'', title = ''Contrat Alpha'', description = Some ''cadre'',
      status = Negociation, amount = 1000, probability = 50, weighted_amount = 500,
      contact_id = Some ''c1'', company_id = None, assigned_to = Some ''u1'',
      expected_close_date = None, closed_at = None, created_at = 3\<rparr>"

definition won_deal :: deal where
  "won_deal =
     \<lparr>deal_id = ''9'', title = ''Contrat Beta'', description = None,
      status = Gagne, amount = 400, probability = 50, weighted_amount = 200,
      contact_id = None, company_id = Some ''co1'', assigned_to = None,
      expected_close_date = None, closed_at = Some 5, created_at = 4\<rparr>"

definition demo_body :: body where
  "demo_body =
     \<lparr>b_title = Some ''  Offre  '', b_description = None, b_status = None, b_amount = None,
      b_contact_id = None, b_company_id = None, b_assigned_to = None,
      b_expected_close_date = None\<rparr>"

text \<open>
  A lower-casing for the examples: the letters A to Z go to a to z and every other
  character is kept. The examples use it on strings that have no other letters, where it
  is what both \<open>toLowerCase\<close> and \<open>LOWER\<close> compute.
\<close>

definition ascii_to_lower :: "char \<Rightarrow> char" where
  "ascii_to_lower c =
     (case map_of (zip ''ABCDEFGHIJKLMNOPQRSTUVWXYZ'' ''abcdefghijklmnopqrstuvwxyz'') c of
        None \<Rightarrow> c
      | Some l \<Rightarrow> l)"

definition ascii_lower :: "string \<Rightarrow> string" where
  "ascii_lower s = map ascii_to_lower s"

definition no_lookups :: lookups where
  "no_lookups = \<lparr>contacts = Map.empty, companies = Map.empty, users = Map.empty\<rparr>"

definition demo_requests :: "request list" where
  "demo_requests =
     [Create 1 ''1'' (demo_body\<lparr>b_amount := Some 1000\<rparr>), Transition 2 ''1'' (Some ''gagne'')]"

section \<open>Properties\<close>

subsection \<open>Casts and statements\<close>

lemma cast_status_text: "deal_status_cast (status_text st) = Some st"
  by (cases st) (simp_all add: deal_status_cast_def)

lemma cast_allowed:
  "s \<in> set ALLOWED_STATUSES \<Longrightarrow> \<exists>st. deal_status_cast s = Some st \<and> status_text st = s"
  by (auto simp: ALLOWED_STATUSES_def deal_status_cast_def)

lemma cast_SomeD: "deal_status_cast s = Some st \<Longrightarrow> s = status_text st"
  by (cases st) (auto simp: deal_status_cast_def split: if_splits)

lemma status_text_allowed: "status_text st \<in> set ALLOWED_STATUSES"
  by (cases st) (simp_all add: ALLOWED_STATUSES_def)

lemma status_text_closed: "status_text st \<in> {''gagne'', ''perdu''} \<longleftrightarrow> st \<in> {Gagne, Perdu}"
  by (cases st) simp_all

lemma returning_update_where:
  "returning i (update_where sp i f ds) = map (\<lambda>d. store_row sp (f d)) (returning i ds)"
  if "\<And>d. deal_id (f d) = deal_id d"
  using that by (induction ds) (auto simp: returning_def update_where_def store_row_def)

lemma returning_empty_iff: "returning i ds = [] \<longleftrightarrow> i \<notin> deal_id ` set ds"
  by (auto simp: returning_def filter_empty_conv)

lemma update_where_absent: "i \<notin> deal_id ` set ds \<Longrightarrow> update_where sp i f ds = ds"
  by (induction ds) (auto simp: update_where_def)

lemma length_update_where: "length (update_where sp i f ds) = length ds"
  by (simp add: update_where_def)

lemma set_update_where:
  "d' \<in> set (update_where sp i f ds) \<Longrightarrow> deal_id d' = i \<Longrightarrow> (\<And>d. deal_id (f d) = deal_id d) \<Longrightarrow>
   \<exists>d \<in> set ds. deal_id d = i \<and> d' = store_row sp (f d)"
  by (auto simp: update_where_def store_row_def)

lemma patch_status_run:
  assumes "deal_status_cast s = Some st"
  shows "patch_status sp now i (Some s) ds =
           (update_where sp i (patch_set now st) ds,
            case returning i ds of [] \<Rightarrow> Inl NotFound | d # _ \<Rightarrow> Inr (store_row sp (patch_set now st d)))"
proof -
  have inc: "array_includes ALLOWED_STATUSES (Some s)"
    using cast_SomeD [OF assms] status_text_allowed by (simp add: array_includes_def)
  have ret: "returning i (update_where sp i (patch_set now st) ds) =
               map (\<lambda>d. store_row sp (patch_set now st d)) (returning i ds)"
    by (rule returning_update_where) (simp add: patch_set_def)
  show ?thesis
    unfolding patch_status_def using inc assms
    by (simp add: ret split: list.splits)
qed

lemma closed_at_for_iff: "closed_at_for now st \<noteq> None \<longleftrightarrow> st \<in> {Gagne, Perdu}"
  by (simp add: closed_at_for_def)

text \<open>
  C2. For every id that exists in the table and every status of the enumeration, the
  status transition succeeds, and every row it wrote (the returned one among them) has
  the new status, with \<open>closed_at\<close> not null exactly when the status is \<open>gagne\<close> or
  \<open>perdu\<close> and null for the other four.
\<close>

theorem transitionStatus_closed_at:
  assumes "i \<in> deal_id ` set ds" and "s \<in> set ALLOWED_STATUSES"
  shows "\<exists>ds' d. patch_status sp now i (Some s) ds = (ds', Inr d) \<and> d \<in> set ds' \<and> deal_id d = i \<and>
           (\<forall>d' \<in> set ds'. deal_id d' = i \<longrightarrow>
              status_text (status d') = s \<and>
              (closed_at d' \<noteq> None \<longleftrightarrow> s \<in> {''gagne'', ''perdu''}) \<and>
              (s \<in> {''prospect'', ''qualification'', ''proposition'', ''negociation''}
                 \<longrightarrow> closed_at d' = None))"
proof -
  from assms(2) obtain st where st: "deal_status_cast s = Some st" and stx: "status_text st = s"
    using cast_allowed by blast
  let ?ds' = "update_where sp i (patch_set now st) ds"
  from assms(1) obtain d0 rest where ret: "returning i ds = d0 # rest"
    using returning_empty_iff [of i ds] by (cases "returning i ds") auto
  let ?d = "store_row sp (patch_set now st d0)"
  have run: "patch_status sp now i (Some s) ds = (?ds', Inr ?d)"
    by (simp add: patch_status_run [OF st] ret)
  have "d0 \<in> set (returning i ds)"
    by (simp add: ret)
  then have "d0 \<in> set ds" and id0: "deal_id d0 = i"
    by (simp_all add: returning_def)
  then have mem: "?d \<in> set ?ds'"
    unfolding update_where_def by force
  have idd: "deal_id ?d = i"
    using id0 by (simp add: store_row_def patch_set_def)
  have rows: "status_text (status d') = s \<and>
              (closed_at d' \<noteq> None \<longleftrightarrow> s \<in> {''gagne'', ''perdu''}) \<and>
              (s \<in> {''prospect'', ''qualification'', ''proposition'', ''negociation''}
                 \<longrightarrow> closed_at d' = None)"
    if "d' \<in> set ?ds'" "deal_id d' = i" for d'
  proof -
    from set_update_where [OF that] obtain d where d': "d' = store_row sp (patch_set now st d)"
      by (auto simp: patch_set_def)
    have s1: "status d' = st" and c1: "closed_at d' = closed_at_for now st"
      by (simp_all add: d' store_row_def patch_set_def)
    have "closed_at d' \<noteq> None \<longleftrightarrow> s \<in> {''gagne'', ''perdu''}"
      using closed_at_for_iff [of now st] status_text_closed [of st] by (simp add: c1 stx)
    moreover have "s \<in> {''prospect'', ''qualification'', ''proposition'', ''negociation''}
                 \<longrightarrow> closed_at d' = None"
      using stx by (cases st) (auto simp: c1 closed_at_for_def)
    ultimately show ?thesis by (simp add: s1 stx)
  qed
  show ?thesis using run mem idd rows by blast
qed

lemma patch_set_frame:
  "map deal_id (update_where sp i (patch_set now st) ds) = map deal_id ds"
  "map title (update_where sp i (patch_set now st) ds) = map title ds"
  "map description (update_where sp i (patch_set now st) ds) = map description ds"
  "map amount (update_where sp i (patch_set now st) ds) = map amount ds"
  "map contact_id (update_where sp i (patch_set now st) ds) = map contact_id ds"
  "map company_id (update_where sp i (patch_set now st) ds) = map company_id ds"
  "map assigned_to (update_where sp i (patch_set now st) ds) = map assigned_to ds"
  "map expected_close_date (update_where sp i (patch_set now st) ds) = map expected_close_date ds"
  "map created_at (update_where sp i (patch_set now st) ds) = map created_at ds"
  by (induction ds) (simp_all add: update_where_def store_row_def patch_set_def)

lemma update_where_other:
  "k < length ds \<Longrightarrow> deal_id (ds ! k) \<noteq> i \<Longrightarrow> update_where sp i f ds ! k = ds ! k"
  by (simp add: update_where_def)

lemma array_includes_SomeD:
  "array_includes ALLOWED_STATUSES s \<Longrightarrow> \<exists>x st. s = Some x \<and> deal_status_cast x = Some st"
  using cast_allowed by (cases s) (auto simp: array_includes_def)

text \<open>
  C7. A status outside the enumeration is answered with InvalidStatus and the table is
  left as it was; a valid status for an id that is not there is answered with NotFound;
  a transition that succeeds keeps, in every row, the id, title, description, amount,
  contact, company, assignee, expected close date and creation time, and keeps the rows
  of other ids whole.
\<close>

theorem transitionStatus_frame:
  "(\<not> array_includes ALLOWED_STATUSES s \<longrightarrow>
      patch_status sp now i s ds = (ds, Inl InvalidStatus)) \<and>
   (array_includes ALLOWED_STATUSES s \<and> i \<notin> deal_id ` set ds \<longrightarrow>
      patch_status sp now i s ds = (ds, Inl NotFound)) \<and>
   (array_includes ALLOWED_STATUSES s \<and> i \<in> deal_id ` set ds \<longrightarrow>
      (\<exists>ds' d. patch_status sp now i s ds = (ds', Inr d))) \<and>
   (\<forall>ds' d. patch_status sp now i s ds = (ds', Inr d) \<longrightarrow>
      map deal_id ds' = map deal_id ds \<and>
      map title ds' = map title ds \<and>
      map description ds' = map description ds \<and>
      map amount ds' = map amount ds \<and>
      map contact_id ds' = map contact_id ds \<and>
      map company_id ds' = map company_id ds \<and>
      map assigned_to ds' = map assigned_to ds \<and>
      map expected_close_date ds' = map expected_close_date ds \<and>
      map created_at ds' = map created_at ds \<and>
      (\<forall>k < length ds. deal_id (ds ! k) \<noteq> i \<longrightarrow> ds' ! k = ds ! k))"
proof (cases "array_includes ALLOWED_STATUSES s")
  case False
  then show ?thesis by (simp add: patch_status_def)
next
  case True
  then obtain x st where s: "s = Some x" and st: "deal_status_cast x = Some st"
    using array_includes_SomeD by blast
  note run = patch_status_run [OF st, of sp now i ds, folded s]
  show ?thesis
  proof (cases "returning i ds")
    case Nil
    then have absent: "i \<notin> deal_id ` set ds"
      by (simp add: returning_empty_iff)
    then show ?thesis
      using True run Nil by (simp add: update_where_absent)
  next
    case (Cons d0 rest)
    then have present: "i \<in> deal_id ` set ds"
      using returning_empty_iff [of i ds] by simp
    show ?thesis
      using True present run Cons by (simp add: patch_set_frame update_where_other)
  qed
qed

theorem transitionStatus_closed_at_witness:
  "''7'' \<in> deal_id ` set [demo_deal] \<and> ''gagne'' \<in> set ALLOWED_STATUSES \<and>
   (\<exists>ds' d. patch_status (\<lambda>st. 50) 9 ''7'' (Some ''gagne'') [demo_deal] = (ds', Inr d) \<and>
      d \<in> set ds' \<and> deal_id d = ''7'' \<and>
      (\<forall>d' \<in> set ds'. deal_id d' = ''7'' \<longrightarrow>
         status_text (status d') = ''gagne'' \<and>
         (closed_at d' \<noteq> None \<longleftrightarrow> ''gagne'' \<in> {''gagne'', ''perdu''}) \<and>
         (''gagne'' \<in> {''prospect'', ''qualification'', ''proposition'', ''negociation''}
            \<longrightarrow> closed_at d' = None)))"
proof -
  have h1: "''7'' \<in> deal_id ` set [demo_deal]"
    by (simp add: demo_deal_def)
  have h2: "''gagne'' \<in> set ALLOWED_STATUSES"
    by (simp add: ALLOWED_STATUSES_def)
  show ?thesis
    by (intro conjI h1 h2 transitionStatus_closed_at [OF h1 h2])
qed

theorem transitionStatus_frame_witness:
  "patch_status (\<lambda>st. 50) 9 ''7'' (Some ''unknown'') [demo_deal] = ([demo_deal], Inl InvalidStatus) \<and>
   patch_status (\<lambda>st. 50) 9 ''8'' (Some ''perdu'') [demo_deal] = ([demo_deal], Inl NotFound) \<and>
   (\<exists>ds' d. patch_status (\<lambda>st. 50) 9 ''7'' (Some ''perdu'') [demo_deal] = (ds', Inr d) \<and>
      map title ds' = [''Contrat Alpha''] \<and> map amount ds' = [1000])"
proof -
  have h1: "\<not> array_includes ALLOWED_STATUSES (Some ''unknown'')"
    by (simp add: array_includes_def ALLOWED_STATUSES_def)
  have h2: "array_includes ALLOWED_STATUSES (Some ''perdu'')"
    by (simp add: array_includes_def ALLOWED_STATUSES_def)
  have h3: "''8'' \<notin> deal_id ` set [demo_deal]" and h4: "''7'' \<in> deal_id ` set [demo_deal]"
    by (simp_all add: demo_deal_def)
  have t: "map title [demo_deal] = [''Contrat Alpha'']" "map amount [demo_deal] = [1000]"
    by (simp_all add: demo_deal_def)
  note A = transitionStatus_frame [of "Some ''unknown''" "\<lambda>st. 50" 9 "''7''" "[demo_deal]"]
  note B = transitionStatus_frame [of "Some ''perdu''" "\<lambda>st. 50" 9 "''8''" "[demo_deal]"]
  note C = transitionStatus_frame [of "Some ''perdu''" "\<lambda>st. 50" 9 "''7''" "[demo_deal]"]
  note r1 = A [THEN conjunct1, rule_format, OF h1]
  note r2 = B [THEN conjunct2, THEN conjunct1, rule_format, OF conjI [OF h2 h3]]
  note r3 = C [THEN conjunct2, THEN conjunct2, THEN conjunct1, rule_format, OF conjI [OF h2 h4]]
  note r4 = C [THEN conjunct2, THEN conjunct2, THEN conjunct2, rule_format]
  from r3 obtain ds' d where
    run: "patch_status (\<lambda>st. 50) 9 ''7'' (Some ''perdu'') [demo_deal] = (ds', Inr d)"
    by (elim exE)
  have "map title ds' = map title [demo_deal]" and "map amount ds' = map amount [demo_deal]"
    using r4 [OF run] by simp_all
  with t run r1 r2 show ?thesis by simp
qed

subsection \<open>Titles and statuses of a request\<close>

lemma trim_empty_iff: "trim s = [] \<longleftrightarrow> (\<forall>c \<in> set s. is_ws c)"
proof
  assume "trim s = []"
  then have all: "\<forall>c \<in> set (dropWhile is_ws s). is_ws c"
    by (simp add: trim_def dropWhile_eq_Nil_conv)
  have "dropWhile is_ws s = []"
  proof (rule ccontr)
    assume ne: "dropWhile is_ws s \<noteq> []"
    then have "\<not> is_ws (hd (dropWhile is_ws s))"
      by (rule hd_dropWhile)
    moreover have "hd (dropWhile is_ws s) \<in> set (dropWhile is_ws s)"
      using ne by simp
    ultimately show False using all by blast
  qed
  then show "\<forall>c \<in> set s. is_ws c"
    by (simp add: dropWhile_eq_Nil_conv)
next
  assume "\<forall>c \<in> set s. is_ws c"
  then have "dropWhile is_ws s = []"
    by (simp add: dropWhile_eq_Nil_conv)
  then show "trim s = []"
    unfolding trim_def by (simp del: dropWhile_eq_Nil_conv)
qed

lemma title_blank_iff:
  "\<not> truthy (opt_trim v) \<longleftrightarrow> v = None \<or> (\<exists>s. v = Some s \<and> (\<forall>c \<in> set s. is_ws c))"
  by (cases v) (simp_all add: truthy_def opt_trim_def trim_empty_iff)

lemma title_given: "truthy (opt_trim v) \<Longrightarrow> \<exists>t. opt_trim v = Some t \<and> t \<noteq> []"
  by (cases "opt_trim v") (simp_all add: truthy_def)

lemma final_status_default: "\<not> truthy v \<Longrightarrow> or_else v ''prospect'' = ''prospect''"
  by (cases v) (simp_all add: truthy_def or_else_def)

lemma final_status_given: "truthy v \<Longrightarrow> Some (or_else v d) = v"
  by (cases v) (simp_all add: truthy_def or_else_def)

lemma cast_prospect: "deal_status_cast ''prospect'' = Some Prospect"
  by (simp add: deal_status_cast_def)

lemma final_status_cast:
  assumes "truthy v \<longrightarrow> array_includes ALLOWED_STATUSES v"
  shows "\<exists>st. deal_status_cast (or_else v ''prospect'') = Some st \<and>
              array_includes ALLOWED_STATUSES (Some (or_else v ''prospect''))"
proof (cases "truthy v")
  case True
  with assms final_status_given [OF True, of "''prospect''"] show ?thesis
    using array_includes_SomeD [of v] by auto
next
  case False
  then show ?thesis
    by (simp add: final_status_default cast_prospect array_includes_def ALLOWED_STATUSES_def)
qed

lemma final_status_invalid:
  assumes "truthy v" and "\<not> array_includes ALLOWED_STATUSES v"
  shows "\<not> array_includes ALLOWED_STATUSES (Some (or_else v ''prospect''))"
  using assms final_status_given [OF assms(1), of "''prospect''"] by simp

subsection \<open>What PUT and POST do once the request is valid\<close>

lemma put_deal_run:
  assumes "opt_trim (b_title b) = Some t" and "t \<noteq> []"
    and "truthy (b_status b) \<longrightarrow> array_includes ALLOWED_STATUSES (b_status b)"
    and "deal_status_cast (or_else (b_status b) ''prospect'') = Some st"
  shows "put_deal sp now i b ds =
           (update_where sp i (put_set t st b now) ds,
            case returning i ds of
              [] \<Rightarrow> Inl NotFound
            | d # _ \<Rightarrow> Inr (store_row sp (put_set t st b now d)))"
proof -
  have ret: "returning i (update_where sp i (put_set t st b now) ds) =
               map (\<lambda>d. store_row sp (put_set t st b now d)) (returning i ds)"
    by (rule returning_update_where) (simp add: put_set_def)
  show ?thesis
    unfolding put_deal_def using assms
    by (simp add: truthy_def ret split: list.splits)
qed

lemma put_set_row:
  assumes "d' \<in> set (update_where sp i (put_set t st b now) ds)" and "deal_id d' = i"
  shows "title d' = t \<and>
         description d' = or_null (opt_trim (b_description b)) \<and>
         status d' = st \<and>
         amount d' = nullish (b_amount b) 0 \<and>
         contact_id d' = or_null (b_contact_id b) \<and>
         company_id d' = or_null (b_company_id b) \<and>
         assigned_to d' = or_null (b_assigned_to b) \<and>
         expected_close_date d' = or_null (b_expected_close_date b) \<and>
         closed_at d' = closed_at_for now st"
proof -
  from set_update_where [OF assms] obtain d where "d' = store_row sp (put_set t st b now d)"
    by (auto simp: put_set_def)
  then show ?thesis
    by (simp add: store_row_def put_set_def)
qed

lemma returning_hd:
  "returning i ds = d # rest \<Longrightarrow> d \<in> set ds \<and> deal_id d = i"
proof -
  assume "returning i ds = d # rest"
  then have "d \<in> set (returning i ds)" by simp
  then show ?thesis by (simp add: returning_def)
qed

lemma update_where_hit:
  "d \<in> set ds \<Longrightarrow> deal_id d = i \<Longrightarrow> store_row sp (f d) \<in> set (update_where sp i f ds)"
  unfolding update_where_def by force

lemma or_null_None: "or_null None = None" "or_null (opt_trim None) = None"
  by (simp_all add: or_null_def truthy_def opt_trim_def)

text \<open>
  C6. For a valid request (a title that is not blank, a status that is absent, empty or
  in the enumeration): an id that is not in the table is answered with NotFound and the
  table is left as it was; for an id that is there the update succeeds, rows of other ids
  are kept, and every row of that id takes each column from the request alone: a field
  that is not supplied becomes null (status: \<open>prospect\<close>, amount: 0), and \<open>closed_at\<close>
  is computed again from the new status.
\<close>

theorem update_full_replace:
  assumes "truthy (opt_trim (b_title b))"
    and "truthy (b_status b) \<longrightarrow> array_includes ALLOWED_STATUSES (b_status b)"
  shows "(i \<notin> deal_id ` set ds \<longrightarrow> put_deal sp now i b ds = (ds, Inl NotFound)) \<and>
         (i \<in> deal_id ` set ds \<longrightarrow>
            (\<exists>ds' d. put_deal sp now i b ds = (ds', Inr d) \<and> d \<in> set ds' \<and> deal_id d = i \<and>
               length ds' = length ds \<and>
               (\<forall>k < length ds. deal_id (ds ! k) \<noteq> i \<longrightarrow> ds' ! k = ds ! k) \<and>
               (\<forall>d' \<in> set ds'. deal_id d' = i \<longrightarrow>
                  Some (title d') = opt_trim (b_title b) \<and>
                  description d' = or_null (opt_trim (b_description b)) \<and>
                  Some (status d') = deal_status_cast (or_else (b_status b) ''prospect'') \<and>
                  amount d' = nullish (b_amount b) 0 \<and>
                  contact_id d' = or_null (b_contact_id b) \<and>
                  company_id d' = or_null (b_company_id b) \<and>
                  assigned_to d' = or_null (b_assigned_to b) \<and>
                  expected_close_date d' = or_null (b_expected_close_date b) \<and>
                  closed_at d' = closed_at_for now (status d') \<and>
                  (b_description b = None \<longrightarrow> description d' = None) \<and>
                  (b_status b = None \<longrightarrow> status d' = Prospect) \<and>
                  (b_amount b = None \<longrightarrow> amount d' = 0) \<and>
                  (b_contact_id b = None \<longrightarrow> contact_id d' = None) \<and>
                  (b_company_id b = None \<longrightarrow> company_id d' = None) \<and>
                  (b_assigned_to b = None \<longrightarrow> assigned_to d' = None) \<and>
                  (b_expected_close_date b = None \<longrightarrow> expected_close_date d' = None) \<and>
                  (closed_at d' \<noteq> None \<longleftrightarrow> status d' \<in> {Gagne, Perdu}))))"
proof -
  from assms(1) obtain t where t: "opt_trim (b_title b) = Some t" "t \<noteq> []"
    using title_given by blast
  from assms(2) obtain st where st: "deal_status_cast (or_else (b_status b) ''prospect'') = Some st"
    using final_status_cast by blast
  let ?ds' = "update_where sp i (put_set t st b now) ds"
  note run = put_deal_run [OF t assms(2) st, of sp now i ds]
  have absent: "put_deal sp now i b ds = (ds, Inl NotFound)" if "i \<notin> deal_id ` set ds"
  proof -
    from that have "returning i ds = []" by (simp add: returning_empty_iff)
    with that run show ?thesis by (simp add: update_where_absent)
  qed
  have present: "\<exists>d. put_deal sp now i b ds = (?ds', Inr d) \<and> d \<in> set ?ds' \<and> deal_id d = i"
    if "i \<in> deal_id ` set ds"
  proof -
    from that obtain d0 rest where ret: "returning i ds = d0 # rest"
      using returning_empty_iff [of i ds] by (cases "returning i ds") auto
    from returning_hd [OF ret] have "d0 \<in> set ds" and id0: "deal_id d0 = i" by simp_all
    then have "store_row sp (put_set t st b now d0) \<in> set ?ds'"
      by (rule update_where_hit)
    moreover have "deal_id (store_row sp (put_set t st b now d0)) = i"
      using id0 by (simp add: store_row_def put_set_def)
    ultimately show ?thesis using run ret by simp
  qed
  have prospect: "st = Prospect" if "b_status b = None"
    using that st by (simp add: or_else_def cast_prospect)
  have rows: "Some (title d') = opt_trim (b_title b) \<and>
                  description d' = or_null (opt_trim (b_description b)) \<and>
                  Some (status d') = deal_status_cast (or_else (b_status b) ''prospect'') \<and>
                  amount d' = nullish (b_amount b) 0 \<and>
                  contact_id d' = or_null (b_contact_id b) \<and>
                  company_id d' = or_null (b_company_id b) \<and>
                  assigned_to d' = or_null (b_assigned_to b) \<and>
                  expected_close_date d' = or_null (b_expected_close_date b) \<and>
                  closed_at d' = closed_at_for now (status d') \<and>
                  (b_description b = None \<longrightarrow> description d' = None) \<and>
                  (b_status b = None \<longrightarrow> status d' = Prospect) \<and>
                  (b_amount b = None \<longrightarrow> amount d' = 0) \<and>
                  (b_contact_id b = None \<longrightarrow> contact_id d' = None) \<and>
                  (b_company_id b = None \<longrightarrow> company_id d' = None) \<and>
                  (b_assigned_to b = None \<longrightarrow> assigned_to d' = None) \<and>
                  (b_expected_close_date b = None \<longrightarrow> expected_close_date d' = None) \<and>
                  (closed_at d' \<noteq> None \<longleftrightarrow> status d' \<in> {Gagne, Perdu})"
    if "d' \<in> set ?ds'" "deal_id d' = i" for d'
    using put_set_row [OF that] t st prospect closed_at_for_iff [of now st]
    by (simp add: or_null_None nullish_def)
  have others: "\<forall>k < length ds. deal_id (ds ! k) \<noteq> i \<longrightarrow> ?ds' ! k = ds ! k"
    by (simp add: update_where_other)
  have len: "length ?ds' = length ds"
    by (rule length_update_where)
  show ?thesis
  proof (intro conjI impI)
    assume "i \<notin> deal_id ` set ds"
    then show "put_deal sp now i b ds = (ds, Inl NotFound)" by (rule absent)
  next
    assume "i \<in> deal_id ` set ds"
    from present [OF this] obtain d where
      "put_deal sp now i b ds = (?ds', Inr d)" "d \<in> set ?ds'" "deal_id d = i"
      by (elim exE conjE)
    with len others rows show "\<exists>ds' d. put_deal sp now i b ds = (ds', Inr d) \<and> d \<in> set ds' \<and> deal_id d = i \<and>
               length ds' = length ds \<and>
               (\<forall>k < length ds. deal_id (ds ! k) \<noteq> i \<longrightarrow> ds' ! k = ds ! k) \<and>
               (\<forall>d' \<in> set ds'. deal_id d' = i \<longrightarrow>
                  Some (title d') = opt_trim (b_title b) \<and>
                  description d' = or_null (opt_trim (b_description b)) \<and>
                  Some (status d') = deal_status_cast (or_else (b_status b) ''prospect'') \<and>
                  amount d' = nullish (b_amount b) 0 \<and>
                  contact_id d' = or_null (b_contact_id b) \<and>
                  company_id d' = or_null (b_company_id b) \<and>
                  assigned_to d' = or_null (b_assigned_to b) \<and>
                  expected_close_date d' = or_null (b_expected_close_date b) \<and>
                  closed_at d' = closed_at_for now (status d') \<and>
                  (b_description b = None \<longrightarrow> description d' = None) \<and>
                  (b_status b = None \<longrightarrow> status d' = Prospect) \<and>
                  (b_amount b = None \<longrightarrow> amount d' = 0) \<and>
                  (b_contact_id b = None \<longrightarrow> contact_id d' = None) \<and>
                  (b_company_id b = None \<longrightarrow> company_id d' = None) \<and>
                  (b_assigned_to b = None \<longrightarrow> assigned_to d' = None) \<and>
                  (b_expected_close_date b = None \<longrightarrow> expected_close_date d' = None) \<and>
                  (closed_at d' \<noteq> None \<longleftrightarrow> status d' \<in> {Gagne, Perdu}))"
      by blast
  qed
qed

text \<open>
  C10. For an id in the table and a request with a title that is not blank, an update
  whose status is absent or the empty string succeeds and leaves every row of that id
  (the returned one among them) with status \<open>prospect\<close> and \<open>closed_at\<close> null, whatever
  the status was before.
\<close>

theorem update_without_status:
  assumes "i \<in> deal_id ` set ds" and "truthy (opt_trim (b_title b))"
    and "b_status b = None \<or> b_status b = Some []"
  shows "\<exists>ds' d. put_deal sp now i b ds = (ds', Inr d) \<and> d \<in> set ds' \<and> deal_id d = i \<and>
           status d = Prospect \<and> closed_at d = None \<and>
           (\<forall>d' \<in> set ds'. deal_id d' = i \<longrightarrow> status d' = Prospect \<and> closed_at d' = None)"
proof -
  from assms(2) obtain t where t: "opt_trim (b_title b) = Some t" "t \<noteq> []"
    using title_given by blast
  from assms(3) have nt: "\<not> truthy (b_status b)"
    by (auto simp: truthy_def)
  then have valid: "truthy (b_status b) \<longrightarrow> array_includes ALLOWED_STATUSES (b_status b)"
    by simp
  have st: "deal_status_cast (or_else (b_status b) ''prospect'') = Some Prospect"
    using nt by (simp add: final_status_default cast_prospect)
  let ?ds' = "update_where sp i (put_set t Prospect b now) ds"
  note run = put_deal_run [OF t valid st, of sp now i ds]
  from assms(1) obtain d0 rest where ret: "returning i ds = d0 # rest"
    using returning_empty_iff [of i ds] by (cases "returning i ds") auto
  from returning_hd [OF ret] have in0: "d0 \<in> set ds" and id0: "deal_id d0 = i" by simp_all
  let ?d = "store_row sp (put_set t Prospect b now d0)"
  have mem: "?d \<in> set ?ds'"
    using in0 id0 by (rule update_where_hit)
  have idd: "deal_id ?d = i"
    using id0 by (simp add: store_row_def put_set_def)
  have rows: "status d' = Prospect \<and> closed_at d' = None" if "d' \<in> set ?ds'" "deal_id d' = i" for d'
    using put_set_row [OF that] by (simp add: closed_at_for_def)
  have "put_deal sp now i b ds = (?ds', Inr ?d)"
    using run ret by simp
  with mem idd rows show ?thesis by blast
qed

lemma post_deal_run:
  assumes "opt_trim (b_title b) = Some t" and "t \<noteq> []"
    and "truthy (b_status b) \<longrightarrow> array_includes ALLOWED_STATUSES (b_status b)"
    and "deal_status_cast (or_else (b_status b) ''prospect'') = Some st"
  shows "post_deal sp now i b ds =
           (let d = insert_row sp now i t (or_null (opt_trim (b_description b))) st
                      (nullish (b_amount b) 0) (or_null (b_contact_id b))
                      (or_null (b_company_id b)) (or_null (b_assigned_to b))
                      (or_null (b_expected_close_date b))
            in (ds @ [d], Inr d))"
proof -
  from final_status_cast [OF assms(3)]
  have "array_includes ALLOWED_STATUSES (Some (or_else (b_status b) ''prospect''))"
    by blast
  then show ?thesis
    unfolding post_deal_def using assms by (simp add: truthy_def Let_def)
qed

lemma insert_row_fields:
  "deal_id (insert_row sp now i t de st am co cp au ex) = i"
  "title (insert_row sp now i t de st am co cp au ex) = t"
  "description (insert_row sp now i t de st am co cp au ex) = de"
  "status (insert_row sp now i t de st am co cp au ex) = st"
  "amount (insert_row sp now i t de st am co cp au ex) = am"
  "contact_id (insert_row sp now i t de st am co cp au ex) = co"
  "company_id (insert_row sp now i t de st am co cp au ex) = cp"
  "assigned_to (insert_row sp now i t de st am co cp au ex) = au"
  "expected_close_date (insert_row sp now i t de st am co cp au ex) = ex"
  "closed_at (insert_row sp now i t de st am co cp au ex) = None"
  "created_at (insert_row sp now i t de st am co cp au ex) = now"
  by (simp_all add: insert_row_def store_row_def)

text \<open>
  C5. Creation is answered with ValidationError, and writes nothing, exactly when the
  title is absent, empty or made of white space only. With a title that is not blank, a
  status that is given (present and not the empty string) and outside the enumeration is
  answered with InvalidStatus and nothing is written. In every other case one row is
  appended and returned: it has the trimmed title, the given status or \<open>prospect\<close> when
  none is given, the given amount or 0 when none is given, and \<open>closed_at\<close> null.
\<close>

theorem create_contract:
  "(post_deal sp now i b ds = (ds, Inl ValidationError) \<longleftrightarrow>
      b_title b = None \<or> (\<exists>s. b_title b = Some s \<and> (\<forall>c \<in> set s. is_ws c))) \<and>
   (snd (post_deal sp now i b ds) = Inl ValidationError \<longrightarrow> \<not> truthy (opt_trim (b_title b))) \<and>
   (truthy (opt_trim (b_title b)) \<and> truthy (b_status b) \<and>
      \<not> array_includes ALLOWED_STATUSES (b_status b) \<longrightarrow>
      post_deal sp now i b ds = (ds, Inl InvalidStatus)) \<and>
   (truthy (opt_trim (b_title b)) \<and>
      (truthy (b_status b) \<longrightarrow> array_includes ALLOWED_STATUSES (b_status b)) \<longrightarrow>
      (\<exists>d. post_deal sp now i b ds = (ds @ [d], Inr d) \<and>
         deal_id d = i \<and>
         Some (title d) = opt_trim (b_title b) \<and>
         description d = or_null (opt_trim (b_description b)) \<and>
         (truthy (b_status b) \<longrightarrow> Some (status_text (status d)) = b_status b) \<and>
         (\<not> truthy (b_status b) \<longrightarrow> status d = Prospect) \<and>
         (\<forall>x. b_amount b = Some x \<longrightarrow> amount d = x) \<and>
         (b_amount b = None \<longrightarrow> amount d = 0) \<and>
         contact_id d = or_null (b_contact_id b) \<and>
         company_id d = or_null (b_company_id b) \<and>
         assigned_to d = or_null (b_assigned_to b) \<and>
         expected_close_date d = or_null (b_expected_close_date b) \<and>
         closed_at d = None \<and>
         created_at d = now))"
proof (cases "truthy (opt_trim (b_title b))")
  case False
  then have "post_deal sp now i b ds = (ds, Inl ValidationError)"
    by (simp add: post_deal_def)
  with False show ?thesis
    using title_blank_iff [of "b_title b"] by simp
next
  case True
  then obtain t where t: "opt_trim (b_title b) = Some t" "t \<noteq> []"
    using title_given by blast
  have notblank: "\<not> (b_title b = None \<or> (\<exists>s. b_title b = Some s \<and> (\<forall>c \<in> set s. is_ws c)))"
    using True title_blank_iff [of "b_title b"] by simp
  show ?thesis
  proof (cases "truthy (b_status b) \<and> \<not> array_includes ALLOWED_STATUSES (b_status b)")
    case bad: True
    then have "\<not> array_includes ALLOWED_STATUSES (Some (or_else (b_status b) ''prospect''))"
      using final_status_invalid by blast
    then have "post_deal sp now i b ds = (ds, Inl InvalidStatus)"
      using True by (simp add: post_deal_def)
    with True bad notblank show ?thesis by simp
  next
    case False
    then have valid: "truthy (b_status b) \<longrightarrow> array_includes ALLOWED_STATUSES (b_status b)"
      by blast
    then obtain st where st: "deal_status_cast (or_else (b_status b) ''prospect'') = Some st"
      using final_status_cast by blast
    let ?d = "insert_row sp now i t (or_null (opt_trim (b_description b))) st
                (nullish (b_amount b) 0) (or_null (b_contact_id b))
                (or_null (b_company_id b)) (or_null (b_assigned_to b))
                (or_null (b_expected_close_date b))"
    have run: "post_deal sp now i b ds = (ds @ [?d], Inr ?d)"
      using post_deal_run [OF t valid st, of sp now i ds] by (simp add: Let_def)
    have given: "Some (status_text st) = b_status b" if "truthy (b_status b)"
      using final_status_given [OF that, of "''prospect''"] cast_SomeD [OF st] by simp
    have dflt: "st = Prospect" if "\<not> truthy (b_status b)"
      using final_status_default [OF that] st by (simp add: cast_prospect)
    have fields: "deal_id ?d = i \<and>
         Some (title ?d) = opt_trim (b_title b) \<and>
         description ?d = or_null (opt_trim (b_description b)) \<and>
         (truthy (b_status b) \<longrightarrow> Some (status_text (status ?d)) = b_status b) \<and>
         (\<not> truthy (b_status b) \<longrightarrow> status ?d = Prospect) \<and>
         (\<forall>x. b_amount b = Some x \<longrightarrow> amount ?d = x) \<and>
         (b_amount b = None \<longrightarrow> amount ?d = 0) \<and>
         contact_id ?d = or_null (b_contact_id b) \<and>
         company_id ?d = or_null (b_company_id b) \<and>
         assigned_to ?d = or_null (b_assigned_to b) \<and>
         expected_close_date ?d = or_null (b_expected_close_date b) \<and>
         closed_at ?d = None \<and>
         created_at ?d = now"
      using t given dflt by (simp add: insert_row_fields nullish_def)
    have c4: "\<exists>d. post_deal sp now i b ds = (ds @ [d], Inr d) \<and>
         deal_id d = i \<and>
         Some (title d) = opt_trim (b_title b) \<and>
         description d = or_null (opt_trim (b_description b)) \<and>
         (truthy (b_status b) \<longrightarrow> Some (status_text (status d)) = b_status b) \<and>
         (\<not> truthy (b_status b) \<longrightarrow> status d = Prospect) \<and>
         (\<forall>x. b_amount b = Some x \<longrightarrow> amount d = x) \<and>
         (b_amount b = None \<longrightarrow> amount d = 0) \<and>
         contact_id d = or_null (b_contact_id b) \<and>
         company_id d = or_null (b_company_id b) \<and>
         assigned_to d = or_null (b_assigned_to b) \<and>
         expected_close_date d = or_null (b_expected_close_date b) \<and>
         closed_at d = None \<and>
         created_at d = now"
      using run fields by (intro exI [of _ ?d] conjI) simp_all
    have c1: "post_deal sp now i b ds \<noteq> (ds, Inl ValidationError)"
      and c2: "snd (post_deal sp now i b ds) \<noteq> Inl ValidationError"
      using run by simp_all
    from c1 c2 c4 False notblank True show ?thesis by blast
  qed
qed

text \<open>
  C1. The invariant "\<open>closed_at\<close> is set exactly when the status is \<open>gagne\<close> or
  \<open>perdu\<close>" does not hold after a creation: POST with the status \<open>gagne\<close> stores the
  row with that status and with \<open>closed_at\<close> null, since the INSERT does not list the
  column, unlike the two UPDATE statements.
\<close>

theorem create_gagne_closed_at_null:
  "\<exists>d. post_deal (\<lambda>st. 50) 9 ''8'' (demo_body\<lparr>b_status := Some ''gagne''\<rparr>) [] = ([d], Inr d) \<and>
       status d = Gagne \<and> closed_at d = None"
  by (simp add: post_deal_def demo_body_def truthy_def opt_trim_def trim_def is_ws_def
      or_else_def array_includes_def ALLOWED_STATUSES_def deal_status_cast_def
      insert_row_def store_row_def Let_def)

lemma demo_body_valid:
  "truthy (opt_trim (b_title demo_body))"
  "truthy (b_status demo_body) \<longrightarrow> array_includes ALLOWED_STATUSES (b_status demo_body)"
  "opt_trim (b_title demo_body) = Some ''Offre''"
  by (simp_all add: demo_body_def truthy_def opt_trim_def trim_def is_ws_def)

theorem update_full_replace_witness:
  "truthy (opt_trim (b_title demo_body)) \<and> \<not> truthy (b_status demo_body) \<and>
   put_deal (\<lambda>st. 50) 9 ''8'' demo_body [demo_deal] = ([demo_deal], Inl NotFound) \<and>
   (\<exists>ds' d. put_deal (\<lambda>st. 50) 9 ''7'' demo_body [demo_deal] = (ds', Inr d) \<and>
      title d = ''Offre'' \<and> description d = None \<and> status d = Prospect \<and> amount d = 0 \<and>
      contact_id d = None \<and> assigned_to d = None \<and> closed_at d = None)"
proof -
  note h1 = demo_body_valid(1) and h2 = demo_body_valid(2)
  have h3: "''8'' \<notin> deal_id ` set [demo_deal]" and h4: "''7'' \<in> deal_id ` set [demo_deal]"
    by (simp_all add: demo_deal_def)
  note A = update_full_replace [OF h1 h2, where sp = "\<lambda>st. 50" and now = 9 and ds = "[demo_deal]"]
  note r1 = A [where i = "''8''", THEN conjunct1, rule_format, OF h3]
  have none: "b_description demo_body = None" "b_status demo_body = None" "b_amount demo_body = None"
    "b_contact_id demo_body = None" "b_assigned_to demo_body = None"
    by (simp_all add: demo_body_def)
  have r2: "\<exists>ds' d. put_deal (\<lambda>st. 50) 9 ''7'' demo_body [demo_deal] = (ds', Inr d) \<and>
      title d = ''Offre'' \<and> description d = None \<and> status d = Prospect \<and> amount d = 0 \<and>
      contact_id d = None \<and> assigned_to d = None \<and> closed_at d = None"
    using A [where i = "''7''", THEN conjunct2, rule_format, OF h4]
  proof (elim exE conjE)
    fix ds' d
    assume run: "put_deal (\<lambda>st. 50) 9 ''7'' demo_body [demo_deal] = (ds', Inr d)"
      and mem: "d \<in> set ds'" and idd: "deal_id d = ''7''"
    assume "\<forall>d' \<in> set ds'. deal_id d' = ''7'' \<longrightarrow>
                  Some (title d') = opt_trim (b_title demo_body) \<and>
                  description d' = or_null (opt_trim (b_description demo_body)) \<and>
                  Some (status d') = deal_status_cast (or_else (b_status demo_body) ''prospect'') \<and>
                  amount d' = nullish (b_amount demo_body) 0 \<and>
                  contact_id d' = or_null (b_contact_id demo_body) \<and>
                  company_id d' = or_null (b_company_id demo_body) \<and>
                  assigned_to d' = or_null (b_assigned_to demo_body) \<and>
                  expected_close_date d' = or_null (b_expected_close_date demo_body) \<and>
                  closed_at d' = closed_at_for 9 (status d') \<and>
                  (b_description demo_body = None \<longrightarrow> description d' = None) \<and>
                  (b_status demo_body = None \<longrightarrow> status d' = Prospect) \<and>
                  (b_amount demo_body = None \<longrightarrow> amount d' = 0) \<and>
                  (b_contact_id demo_body = None \<longrightarrow> contact_id d' = None) \<and>
                  (b_company_id demo_body = None \<longrightarrow> company_id d' = None) \<and>
                  (b_assigned_to demo_body = None \<longrightarrow> assigned_to d' = None) \<and>
                  (b_expected_close_date demo_body = None \<longrightarrow> expected_close_date d' = None) \<and>
                  (closed_at d' \<noteq> None \<longleftrightarrow> status d' \<in> {Gagne, Perdu})"
    from this [rule_format, OF mem idd] none demo_body_valid(3)
    have "title d = ''Offre'' \<and> description d = None \<and> status d = Prospect \<and> amount d = 0 \<and>
      contact_id d = None \<and> assigned_to d = None \<and> closed_at d = None"
      by (simp add: or_null_None closed_at_for_def)
    with run show ?thesis by (intro exI [of _ ds'] exI [of _ d]) simp
  qed
  moreover have "\<not> truthy (b_status demo_body)"
    by (simp add: demo_body_def truthy_def)
  ultimately show ?thesis using r1 h1 by simp
qed

theorem update_without_status_witness:
  "''9'' \<in> deal_id ` set [won_deal] \<and> truthy (opt_trim (b_title demo_body)) \<and>
   (b_status demo_body = None \<or> b_status demo_body = Some []) \<and>
   status won_deal = Gagne \<and> closed_at won_deal = Some 5 \<and>
   (\<exists>ds' d. put_deal (\<lambda>st. 50) 9 ''9'' demo_body [won_deal] = (ds', Inr d) \<and>
      status d = Prospect \<and> closed_at d = None)"
proof -
  have h1: "''9'' \<in> deal_id ` set [won_deal]"
    by (simp add: won_deal_def)
  note h2 = demo_body_valid(1)
  have h3: "b_status demo_body = None \<or> b_status demo_body = Some []"
    by (simp add: demo_body_def)
  have before: "status won_deal = Gagne" "closed_at won_deal = Some 5"
    by (simp_all add: won_deal_def)
  have "\<exists>ds' d. put_deal (\<lambda>st. 50) 9 ''9'' demo_body [won_deal] = (ds', Inr d) \<and>
      status d = Prospect \<and> closed_at d = None"
    using update_without_status [OF h1 h2 h3, where sp = "\<lambda>st. 50" and now = 9]
  proof (elim exE conjE)
    fix ds' d
    assume "put_deal (\<lambda>st. 50) 9 ''9'' demo_body [won_deal] = (ds', Inr d)"
      and "status d = Prospect" and "closed_at d = None"
    then show ?thesis by (intro exI [of _ ds'] exI [of _ d]) simp
  qed
  with h1 h2 h3 before show ?thesis by simp
qed

theorem create_contract_witness:
  "post_deal (\<lambda>st. 50) 9 ''8'' (demo_body\<lparr>b_title := Some ''  ''\<rparr>) [demo_deal]
     = ([demo_deal], Inl ValidationError) \<and>
   post_deal (\<lambda>st. 50) 9 ''8'' (demo_body\<lparr>b_status := Some ''bogus''\<rparr>) [demo_deal]
     = ([demo_deal], Inl InvalidStatus) \<and>
   (\<exists>d. post_deal (\<lambda>st. 50) 9 ''8'' demo_body [demo_deal] = ([demo_deal] @ [d], Inr d) \<and>
      status d = Prospect \<and> amount d = 0 \<and> closed_at d = None)"
proof -
  have h1: "b_title (demo_body\<lparr>b_title := Some ''  ''\<rparr>) = None \<or>
            (\<exists>s. b_title (demo_body\<lparr>b_title := Some ''  ''\<rparr>) = Some s \<and> (\<forall>c \<in> set s. is_ws c))"
    by (simp add: is_ws_def)
  have h2: "truthy (opt_trim (b_title (demo_body\<lparr>b_status := Some ''bogus''\<rparr>))) \<and>
            truthy (b_status (demo_body\<lparr>b_status := Some ''bogus''\<rparr>)) \<and>
            \<not> array_includes ALLOWED_STATUSES (b_status (demo_body\<lparr>b_status := Some ''bogus''\<rparr>))"
    using demo_body_valid(1) by (simp add: truthy_def array_includes_def ALLOWED_STATUSES_def)
  have h3: "truthy (opt_trim (b_title demo_body)) \<and>
            (truthy (b_status demo_body) \<longrightarrow> array_includes ALLOWED_STATUSES (b_status demo_body))"
    using demo_body_valid by simp
  note A = create_contract [where sp = "\<lambda>st. 50" and now = 9 and i = "''8''" and ds = "[demo_deal]"]
  note r1 = A [where b = "demo_body\<lparr>b_title := Some ''  ''\<rparr>", THEN conjunct1, THEN iffD2, OF h1]
  note r2 = A [where b = "demo_body\<lparr>b_status := Some ''bogus''\<rparr>",
                THEN conjunct2, THEN conjunct2, THEN conjunct1, rule_format, OF h2]
  have none: "b_amount demo_body = None" "\<not> truthy (b_status demo_body)"
    by (simp_all add: demo_body_def truthy_def)
  have r3: "\<exists>d. post_deal (\<lambda>st. 50) 9 ''8'' demo_body [demo_deal] = ([demo_deal] @ [d], Inr d) \<and>
      status d = Prospect \<and> amount d = 0 \<and> closed_at d = None"
    using A [where b = demo_body, THEN conjunct2, THEN conjunct2, THEN conjunct2, rule_format, OF h3]
  proof (elim exE conjE)
    fix d
    assume "post_deal (\<lambda>st. 50) 9 ''8'' demo_body [demo_deal] = ([demo_deal] @ [d], Inr d)"
      and "\<not> truthy (b_status demo_body) \<longrightarrow> status d = Prospect"
      and "b_amount demo_body = None \<longrightarrow> amount d = 0"
      and "closed_at d = None"
    with none show ?thesis by (intro exI [of _ d]) simp
  qed
  from r1 r2 r3 show ?thesis by simp
qed

subsection \<open>Aggregates\<close>

lemma coalesce_simps: "coalesce None d = d" "coalesce (Some x) d = x"
  by (simp_all add: coalesce_def)

lemma coalesce_sql_sum: "coalesce (sql_sum xs) 0 = sum_list (map (\<lambda>x. coalesce x 0) xs)"
  by (induction xs rule: sql_sum.induct) (simp_all add: coalesce_def split: option.splits)

lemma sum_all_rows: "coalesce (sql_sum (map (\<lambda>d. Some (f d)) ds)) 0 = sum_list (map f ds)"
  by (simp add: coalesce_sql_sum o_def coalesce_simps)

lemma sum_case_rows:
  "coalesce (sql_sum (map (\<lambda>d. if P d then Some (f d) else None) ds)) 0
     = sum_list (map f (filter P ds))"
  by (induction ds) (simp_all add: coalesce_sql_sum coalesce_simps)

lemma count_case_rows:
  "sql_count (map (\<lambda>d. if P d then Some v else None) ds) = length (filter P ds)"
  by (induction ds) (simp_all add: sql_count_def)

text \<open>
  C4. For every table the summary has: the number of rows; the sum of \<open>amount\<close>; the sum
  of \<open>weighted_amount\<close>; the sum of \<open>amount\<close> over the rows of status \<open>gagne\<close>; the number
  of rows whose status is neither \<open>gagne\<close> nor \<open>perdu\<close>. A sum over no rows is 0: all of
  them on the empty table, and \<open>won_value\<close> when no row has status \<open>gagne\<close>.
\<close>

theorem stats_summary_totals:
  "total_deals (fst (get_stats ds)) = length ds \<and>
   total_value (fst (get_stats ds)) = sum_list (map amount ds) \<and>
   weighted_value (fst (get_stats ds)) = sum_list (map weighted_amount ds) \<and>
   won_value (fst (get_stats ds)) = sum_list (map amount (filter (\<lambda>d. status d = Gagne) ds)) \<and>
   active_deals (fst (get_stats ds)) = length (filter (\<lambda>d. status d \<notin> {Gagne, Perdu}) ds) \<and>
   fst (get_stats []) =
     \<lparr>total_deals = 0, total_value = 0, weighted_value = 0, won_value = 0, active_deals = 0\<rparr> \<and>
   ((\<forall>d \<in> set ds. status d \<noteq> Gagne) \<longrightarrow> won_value (fst (get_stats ds)) = 0)"
proof -
  have won: "won_value (fst (get_stats ds)) = sum_list (map amount (filter (\<lambda>d. status d = Gagne) ds))"
    by (simp add: get_stats_def stats_summary_def sum_case_rows)
  have none: "filter (\<lambda>d. status d = Gagne) ds = []" if "\<forall>d \<in> set ds. status d \<noteq> Gagne"
    using that by (simp add: filter_empty_conv)
  have act: "active_deals (fst (get_stats ds)) = length (filter (\<lambda>d. status d \<notin> {Gagne, Perdu}) ds)"
    unfolding get_stats_def stats_summary_def
    using count_case_rows [of "\<lambda>d. status d \<notin> {Gagne, Perdu}" "1::nat" ds] by simp
  have rest: "total_deals (fst (get_stats ds)) = length ds"
    "total_value (fst (get_stats ds)) = sum_list (map amount ds)"
    "weighted_value (fst (get_stats ds)) = sum_list (map weighted_amount ds)"
    by (simp_all add: get_stats_def stats_summary_def sum_all_rows)
  have empty: "fst (get_stats []) =
     \<lparr>total_deals = 0, total_value = 0, weighted_value = 0, won_value = 0, active_deals = 0\<rparr>"
    by (simp add: get_stats_def stats_summary_def coalesce_def sql_count_def)
  from won none act rest empty show ?thesis by simp
qed

theorem stats_summary_totals_witness:
  "status demo_deal \<noteq> Gagne \<and>
   fst (get_stats [demo_deal, won_deal]) =
     \<lparr>total_deals = 2, total_value = 1400, weighted_value = 700, won_value = 400, active_deals = 1\<rparr> \<and>
   won_value (fst (get_stats [demo_deal])) = 0"
proof -
  have h: "\<forall>d \<in> set [demo_deal]. status d \<noteq> Gagne"
    by (simp add: demo_deal_def)
  note A = stats_summary_totals [of "[demo_deal, won_deal]"]
  note B = stats_summary_totals [of "[demo_deal]"]
  have "fst (get_stats [demo_deal, won_deal]) =
     \<lparr>total_deals = total_deals (fst (get_stats [demo_deal, won_deal])),
      total_value = total_value (fst (get_stats [demo_deal, won_deal])),
      weighted_value = weighted_value (fst (get_stats [demo_deal, won_deal])),
      won_value = won_value (fst (get_stats [demo_deal, won_deal])),
      active_deals = active_deals (fst (get_stats [demo_deal, won_deal]))\<rparr>"
    by simp
  also have "\<dots> = \<lparr>total_deals = 2, total_value = 1400, weighted_value = 700, won_value = 400, active_deals = 1\<rparr>"
    using A by (simp add: demo_deal_def won_deal_def)
  finally have r1: "fst (get_stats [demo_deal, won_deal]) =
     \<lparr>total_deals = 2, total_value = 1400, weighted_value = 700, won_value = 400, active_deals = 1\<rparr>" .
  note r2 = B [THEN conjunct2, THEN conjunct2, THEN conjunct2, THEN conjunct2, THEN conjunct2,
                THEN conjunct2, THEN mp, OF h]
  have "status demo_deal \<noteq> Gagne"
    by (simp add: demo_deal_def)
  with r1 r2 show ?thesis by (intro conjI)
qed

subsection \<open>The breakdown by stage\<close>

lemma funnel_key_simps:
  "funnel_key Prospect = 1" "funnel_key Qualification = 2" "funnel_key Proposition = 3"
  "funnel_key Negociation = 4" "funnel_key Gagne = 5" "funnel_key Perdu = 6"
  by (simp_all add: funnel_key_def)

lemma inj_funnel_key: "inj funnel_key"
proof (rule injI)
  fix a b assume "funnel_key a = funnel_key b"
  then show "a = b"
    by (cases a; cases b) (simp_all add: funnel_key_simps)
qed

lemma stats_by_status_eq:
  "stats_by_status ds =
     sort_key (\<lambda>r. funnel_key (bs_status r)) (map (stage_of ds) (remdups (map status ds)))"
proof -
  have "(\<lambda>st. let g = filter (\<lambda>d. status d = st) ds
              in \<lparr>bs_status = st, bs_count = length g,
                  bs_total = coalesce (sql_sum (map (\<lambda>d. Some (amount d)) g)) 0\<rparr>) = stage_of ds"
    by (rule ext) (simp add: stage_of_def Let_def sum_all_rows)
  then show ?thesis
    by (simp add: stats_by_status_def)
qed

lemma bs_status_stage_of: "bs_status (stage_of ds st) = st"
  by (simp add: stage_of_def)

lemma funnel_all: "st \<in> set [Prospect, Qualification, Proposition, Negociation, Gagne, Perdu]"
  by (cases st) simp_all

lemma by_status_statuses:
  "map bs_status (stats_by_status ds) =
     filter (\<lambda>st. st \<in> status ` set ds)
       [Prospect, Qualification, Proposition, Negociation, Gagne, Perdu]"
proof -
  let ?S = "remdups (map status ds)"
  let ?R = "stats_by_status ds"
  let ?L = "map bs_status ?R"
  let ?C = "[Prospect, Qualification, Proposition, Negociation, Gagne, Perdu]"
  let ?F = "filter (\<lambda>st. st \<in> status ` set ds) ?C"
  have setR: "set ?R = stage_of ds ` set ?S"
    by (simp add: stats_by_status_eq)
  have "distinct (map (stage_of ds) ?S)"
    by (simp add: distinct_map inj_on_def) (metis bs_status_stage_of)
  then have dR: "distinct ?R"
    by (simp add: stats_by_status_eq)
  have "inj_on bs_status (set ?R)"
    unfolding setR by (rule inj_onI) (auto simp: bs_status_stage_of)
  with dR have dL: "distinct ?L"
    by (simp add: distinct_map)
  have sL: "set ?L = status ` set ds"
    by (simp add: setR image_image bs_status_stage_of)
  have "sorted (map (\<lambda>r. funnel_key (bs_status r)) ?R)"
    unfolding stats_by_status_eq by (rule sorted_sort_key)
  then have oL: "sorted (map funnel_key ?L)"
    by (simp add: o_def)
  have "sorted (map funnel_key ?C)"
    by (simp add: funnel_key_simps)
  then have oF: "sorted (map funnel_key ?F)"
    by (rule sorted_filter)
  have dF: "distinct ?F"
    by (rule distinct_filter) simp
  have univ: "UNIV = set ?C"
    by (rule UNIV_eq_I) (rule funnel_all)
  have "set ?F = {st \<in> set ?C. st \<in> status ` set ds}"
    by (rule set_filter)
  also have "\<dots> = status ` set ds"
    unfolding univ [symmetric] by blast
  finally have sF: "set ?F = status ` set ds" .
  have "map funnel_key ?L = map funnel_key ?F"
  proof (rule sorted_distinct_set_unique)
    show "distinct (map funnel_key ?L)"
      using dL inj_funnel_key by (simp add: distinct_map inj_on_def inj_def)
    show "distinct (map funnel_key ?F)"
      using dF inj_funnel_key by (simp only: distinct_map) (auto simp: inj_on_def inj_def)
    show "set (map funnel_key ?L) = set (map funnel_key ?F)"
      using sL sF by (simp only: set_map)
  qed (rule oL, rule oF)
  then show ?thesis
    using inj_funnel_key by (simp only: inj_map_eq_map)
qed

lemma by_status_rows:
  assumes "r \<in> set (stats_by_status ds)"
  shows "r = stage_of ds (bs_status r)"
proof -
  from assms have "r \<in> set (map (stage_of ds) (remdups (map status ds)))"
    by (simp add: stats_by_status_eq)
  then obtain st where "r = stage_of ds st" by auto
  then show ?thesis by (simp add: stage_of_def)
qed

text \<open>
  C3. For every table the breakdown has exactly one entry for each status that occurs,
  in the order prospect, qualification, proposition, negociation, gagne, perdu, whatever
  the order of the rows; each entry carries the number of deals of its status and the sum
  of their amounts. Rows of status perdu, prospect, gagne give prospect, gagne, perdu.
\<close>

theorem by_status_funnel_order:
  "map bs_status (snd (get_stats ds)) =
     filter (\<lambda>st. st \<in> status ` set ds)
       [Prospect, Qualification, Proposition, Negociation, Gagne, Perdu] \<and>
   (\<forall>r \<in> set (snd (get_stats ds)).
      bs_count r = length (filter (\<lambda>d. status d = bs_status r) ds) \<and>
      bs_total r = sum_list (map amount (filter (\<lambda>d. status d = bs_status r) ds)))"
proof (intro conjI ballI)
  show "map bs_status (snd (get_stats ds)) =
     filter (\<lambda>st. st \<in> status ` set ds)
       [Prospect, Qualification, Proposition, Negociation, Gagne, Perdu]"
    by (simp only: get_stats_def snd_conv by_status_statuses)
next
  fix r assume "r \<in> set (snd (get_stats ds))"
  then have r: "r = stage_of ds (bs_status r)"
    by (simp add: get_stats_def by_status_rows)
  show "bs_count r = length (filter (\<lambda>d. status d = bs_status r) ds)"
    by (subst r) (simp add: stage_of_def)
  show "bs_total r = sum_list (map amount (filter (\<lambda>d. status d = bs_status r) ds))"
    by (subst r) (simp add: stage_of_def)
qed

theorem by_status_funnel_order_witness:
  "map bs_status (snd (get_stats [demo_deal\<lparr>status := Perdu\<rparr>, demo_deal\<lparr>status := Prospect\<rparr>, won_deal]))
     = [Prospect, Gagne, Perdu] \<and>
   map bs_status (snd (get_stats [won_deal, demo_deal\<lparr>status := Prospect\<rparr>, demo_deal\<lparr>status := Perdu\<rparr>]))
     = [Prospect, Gagne, Perdu] \<and>
   (\<exists>r \<in> set (snd (get_stats [won_deal, demo_deal\<lparr>status := Prospect\<rparr>, demo_deal\<lparr>status := Perdu\<rparr>])).
      bs_status r = Gagne \<and> bs_count r = 1 \<and> bs_total r = 400)"
proof -
  let ?a = "[demo_deal\<lparr>status := Perdu\<rparr>, demo_deal\<lparr>status := Prospect\<rparr>, won_deal]"
  let ?b = "[won_deal, demo_deal\<lparr>status := Prospect\<rparr>, demo_deal\<lparr>status := Perdu\<rparr>]"
  have st: "status won_deal = Gagne" "amount won_deal = 400"
    by (simp_all add: won_deal_def)
  have r1: "map bs_status (snd (get_stats ?a)) = [Prospect, Gagne, Perdu]"
    using by_status_funnel_order [of ?a, THEN conjunct1] by (simp add: st)
  have r2: "map bs_status (snd (get_stats ?b)) = [Prospect, Gagne, Perdu]"
    using by_status_funnel_order [of ?b, THEN conjunct1] by (simp add: st)
  have "Gagne \<in> set (map bs_status (snd (get_stats ?b)))"
    by (simp only: r2) simp
  then obtain r where mem: "r \<in> set (snd (get_stats ?b))" and g: "bs_status r = Gagne"
    by auto
  from by_status_funnel_order [of ?b, THEN conjunct2, rule_format, OF mem] g
  have "bs_count r = 1 \<and> bs_total r = 400"
    by (simp add: st)
  with mem g r1 r2 show ?thesis by blast
qed

subsection \<open>Substrings and LIKE patterns\<close>

lemma starts_with_iff: "starts_with t q \<longleftrightarrow> (\<exists>rest. t = q @ rest)"
  by (induction t q rule: starts_with.induct) auto

lemma contains_iff: "contains t q \<longleftrightarrow> (\<exists>pre post. t = pre @ q @ post)"
proof (induction t)
  case Nil
  then show ?case by simp
next
  case (Cons x t)
  show ?case
  proof
    assume "contains (x # t) q"
    then consider "starts_with (x # t) q" | "contains t q" by auto
    then show "\<exists>pre post. x # t = pre @ q @ post"
    proof cases
      case 1
      then obtain rest where "x # t = q @ rest" by (auto simp: starts_with_iff)
      then have "x # t = [] @ q @ rest" by simp
      then show ?thesis by blast
    next
      case 2
      with Cons obtain pre post where "t = pre @ q @ post" by blast
      then have "x # t = (x # pre) @ q @ post" by simp
      then show ?thesis by blast
    qed
  next
    assume "\<exists>pre post. x # t = pre @ q @ post"
    then obtain pre post where eq: "x # t = pre @ q @ post" by blast
    show "contains (x # t) q"
    proof (cases pre)
      case Nil
      with eq have "starts_with (x # t) q" by (auto simp: starts_with_iff)
      then show ?thesis by simp
    next
      case (Cons y pre')
      with eq have "t = pre' @ q @ post" by simp
      with Cons.IH have "contains t q" by blast
      then show ?thesis by simp
    qed
  qed
qed

lemma like_match_any: "like_match [AnyString] t"
  by (induction t) simp_all

lemma like_match_lits:
  "like_match (map Lit q @ [AnyString]) t = starts_with t q"
proof (induction t q rule: starts_with.induct)
  case (1 t)
  then show ?case by (simp add: like_match_any)
next
  case (2 c q)
  then show ?case by simp
next
  case (3 x t c q)
  then show ?case by simp
qed

lemma like_match_contains:
  "like_match (AnyString # map Lit q @ [AnyString]) t = contains t q"
proof (induction t)
  case Nil
  show ?case by (cases q) (simp_all add: like_match_lits)
next
  case (Cons x t)
  then show ?case by (simp add: like_match_lits)
qed

lemma like_tok_of_plain: "\<not> like_meta c \<Longrightarrow> like_tok_of c = Lit c"
  by (simp add: like_meta_def like_tok_of_def)

lemma like_pattern_plain:
  "\<forall>c \<in> set q. \<not> like_meta c \<Longrightarrow> like_pattern (q @ ''%'') = Some (map Lit q @ [AnyString])"
proof (induction q)
  case Nil
  show ?case by (simp add: like_tok_of_def)
next
  case (Cons c q)
  then have c: "c \<noteq> CHR 0x5C" and tok: "like_tok_of c = Lit c"
    by (simp_all add: like_meta_def like_tok_of_def)
  obtain e es where "q @ ''%'' = e # es"
    by (cases "q @ ''%''") simp_all
  with Cons c tok show ?case by simp
qed

lemma like_pattern_wrapped:
  assumes "\<forall>c \<in> set q. \<not> like_meta c"
  shows "like_pattern (''%'' @ q @ ''%'') = Some (AnyString # map Lit q @ [AnyString])"
proof -
  obtain e es where "q @ ''%'' = e # es"
    by (cases "q @ ''%''") simp_all
  with like_pattern_plain [OF assms] show ?thesis
    by (simp add: like_tok_of_def)
qed

lemma fst_left_joins: "fst (left_joins lk d) = d"
  by (simp add: left_joins_def Let_def)

lemma set_order_by: "set (order_by_created_at_desc ds) = set ds"
  by (simp add: order_by_created_at_desc_def)

lemma title_clause_plain:
  assumes "q \<noteq> []" and "\<forall>c \<in> set (js_lower q). \<not> like_meta c"
  shows "title_clause js_lower sql_lower (Some q) = Some (title_contains_ci js_lower sql_lower q)"
proof -
  have "like_pattern (''%'' @ js_lower q @ ''%'')
          = Some (AnyString # map Lit (js_lower q) @ [AnyString])"
    using assms(2) by (rule like_pattern_wrapped)
  then show ?thesis
    using assms(1)
    by (simp add: title_clause_def like_match_contains title_contains_ci_def fun_eq_iff)
qed

lemma title_clause_same_lowered:
  assumes "q \<noteq> []" and "q' \<noteq> []" and "js_lower q' = js_lower q"
  shows "title_clause js_lower sql_lower (Some q') = title_clause js_lower sql_lower (Some q)"
  using assms by (simp add: title_clause_def)

text \<open>
  The query string \<open>_\<close> selects a deal whose title has no underscore: the handler
  puts the string into the pattern as it is, and \<open>LIKE\<close> reads \<open>_\<close> as any character.
\<close>

theorem list_q_wildcard_counterexample:
  "list_deals ascii_lower ascii_lower \<lparr>q_status = None, q_assigned_to = None, q_q = Some ''_''\<rparr>
     no_lookups [demo_deal]
     = Inr [left_joins no_lookups demo_deal] \<and>
   \<not> title_contains_ci ascii_lower ascii_lower ''_'' demo_deal"
  by (simp add: list_deals_def title_clause_def ascii_lower_def ascii_to_lower_def like_tok_of_def
      status_clause_def assigned_clause_def truthy_def order_by_created_at_desc_def
      title_contains_ci_def demo_deal_def)

text \<open>
  C9, amended. Take any lower-casing of the handler (\<open>toLowerCase\<close>) and any of the
  database (\<open>LOWER\<close>). For a query string \<open>q\<close> that is not empty and whose lower-cased
  form has none of the characters \<open>%\<close>, \<open>_\<close> and backslash, the list is the rows that
  pass the status and assignee conditions and whose title contains \<open>q\<close> as a substring,
  letter case ignored: the title as the database lower-cases it contains \<open>q\<close> as the
  handler lower-cases it. With no other filter the list is exactly those rows. The
  condition reads the title and no other column, and two query strings with the same
  lower-cased form give the same list.
\<close>

theorem list_q_plain_substring:
  assumes "q_q qy = Some q" and "q \<noteq> []" and "\<forall>c \<in> set (js_lower q). \<not> like_meta c"
  shows "list_deals js_lower sql_lower qy lk ds =
           Inr (map (left_joins lk)
                  (order_by_created_at_desc
                     (filter (\<lambda>d. status_clause (q_status qy) d \<and>
                                  assigned_clause (q_assigned_to qy) d \<and>
                                  title_contains_ci js_lower sql_lower q d) ds))) \<and>
         (q_status qy = None \<and> q_assigned_to qy = None \<longrightarrow>
            (\<exists>rs. list_deals js_lower sql_lower qy lk ds = Inr rs \<and>
                  length rs = length (filter (title_contains_ci js_lower sql_lower q) ds) \<and>
                  set (map fst rs) = {d \<in> set ds. title_contains_ci js_lower sql_lower q d})) \<and>
         (\<forall>d. title_contains_ci js_lower sql_lower q d \<longleftrightarrow>
                (\<exists>pre post. sql_lower (title d) = pre @ js_lower q @ post)) \<and>
         (\<forall>q'. q' \<noteq> [] \<and> js_lower q' = js_lower q \<longrightarrow>
                list_deals js_lower sql_lower (qy\<lparr>q_q := Some q'\<rparr>) lk ds
                  = list_deals js_lower sql_lower qy lk ds)"
proof -
  let ?ci = "title_contains_ci js_lower sql_lower q"
  have run: "list_deals js_lower sql_lower qy lk ds =
           Inr (map (left_joins lk)
                  (order_by_created_at_desc
                     (filter (\<lambda>d. status_clause (q_status qy) d \<and>
                                  assigned_clause (q_assigned_to qy) d \<and> ?ci d) ds)))"
    by (simp add: list_deals_def assms(1)
        title_clause_plain [where js_lower = js_lower and q = q, OF assms(2,3)])
  have only: "\<exists>rs. list_deals js_lower sql_lower qy lk ds = Inr rs \<and>
                  length rs = length (filter ?ci ds) \<and>
                  set (map fst rs) = {d \<in> set ds. ?ci d}"
    if "q_status qy = None" "q_assigned_to qy = None"
  proof -
    have "filter (\<lambda>d. status_clause (q_status qy) d \<and> assigned_clause (q_assigned_to qy) d \<and>
                       ?ci d) ds = filter ?ci ds"
      using that by (simp add: status_clause_def assigned_clause_def truthy_def)
    with run have r: "list_deals js_lower sql_lower qy lk ds =
        Inr (map (left_joins lk) (order_by_created_at_desc (filter ?ci ds)))"
      by simp
    have "map fst (map (left_joins lk) (order_by_created_at_desc (filter ?ci ds)))
            = order_by_created_at_desc (filter ?ci ds)"
      by (simp add: o_def fst_left_joins)
    then have "set (map fst (map (left_joins lk) (order_by_created_at_desc (filter ?ci ds))))
            = {d \<in> set ds. ?ci d}"
      by (simp only: set_order_by set_filter)
    moreover have "length (map (left_joins lk) (order_by_created_at_desc (filter ?ci ds)))
            = length (filter ?ci ds)"
      by (simp add: order_by_created_at_desc_def)
    ultimately show ?thesis using r by blast
  qed
  have meaning: "\<forall>d. ?ci d \<longleftrightarrow> (\<exists>pre post. sql_lower (title d) = pre @ js_lower q @ post)"
    by (simp add: title_contains_ci_def contains_iff)
  have same: "list_deals js_lower sql_lower (qy\<lparr>q_q := Some q'\<rparr>) lk ds
                = list_deals js_lower sql_lower qy lk ds"
    if "q' \<noteq> []" "js_lower q' = js_lower q" for q'
    using title_clause_same_lowered
      [where js_lower = js_lower and sql_lower = sql_lower and q = q and q' = q', OF assms(2) that]
    by (simp add: list_deals_def assms(1) split: option.splits)
  from run only meaning same show ?thesis by blast
qed

theorem list_q_plain_substring_witness:
  "q_q \<lparr>q_status = None, q_assigned_to = None, q_q = Some ''ALPHA''\<rparr> = Some ''ALPHA'' \<and>
   ''ALPHA'' \<noteq> [] \<and> ascii_lower ''ALPHA'' = ''alpha'' \<and> \<not> like_meta CHR ''a'' \<and>
   list_deals ascii_lower ascii_lower \<lparr>q_status = None, q_assigned_to = None, q_q = Some ''ALPHA''\<rparr>
     no_lookups [demo_deal, won_deal] = Inr [left_joins no_lookups demo_deal] \<and>
   title_contains_ci ascii_lower ascii_lower ''ALPHA'' demo_deal \<and>
   \<not> title_contains_ci ascii_lower ascii_lower ''ALPHA'' won_deal \<and>
   list_deals ascii_lower ascii_lower \<lparr>q_status = None, q_assigned_to = None, q_q = Some ''alPha''\<rparr>
     no_lookups [demo_deal, won_deal] = Inr [left_joins no_lookups demo_deal]"
proof -
  let ?qy = "\<lparr>q_status = None, q_assigned_to = None, q_q = Some ''ALPHA''\<rparr>"
  have h1: "q_q ?qy = Some ''ALPHA''" by simp
  have h2: "''ALPHA'' \<noteq> []" by simp
  have lw: "ascii_lower ''ALPHA'' = ''alpha''" "ascii_lower ''alPha'' = ''alpha''"
    by (simp_all add: ascii_lower_def ascii_to_lower_def)
  have h3: "\<forall>c \<in> set (ascii_lower ''ALPHA''). \<not> like_meta c"
    by (simp add: lw like_meta_def)
  have t: "title_contains_ci ascii_lower ascii_lower ''ALPHA'' demo_deal"
    "\<not> title_contains_ci ascii_lower ascii_lower ''ALPHA'' won_deal"
    by (simp_all add: title_contains_ci_def ascii_lower_def ascii_to_lower_def
        demo_deal_def won_deal_def)
  note A = list_q_plain_substring
    [where js_lower = ascii_lower and sql_lower = ascii_lower and q = "''ALPHA''" and qy = ?qy
       and lk = no_lookups and ds = "[demo_deal, won_deal]", OF h1 h2 h3]
  have r1: "list_deals ascii_lower ascii_lower ?qy no_lookups [demo_deal, won_deal]
              = Inr [left_joins no_lookups demo_deal]"
    using A [THEN conjunct1] t
    by (simp add: status_clause_def assigned_clause_def truthy_def order_by_created_at_desc_def)
  have h4: "''alPha'' \<noteq> [] \<and> ascii_lower ''alPha'' = ascii_lower ''ALPHA''"
    by (simp add: lw)
  from A [THEN conjunct2, THEN conjunct2, THEN conjunct2, rule_format, OF h4]
  have r2: "list_deals ascii_lower ascii_lower
              \<lparr>q_status = None, q_assigned_to = None, q_q = Some ''alPha''\<rparr>
              no_lookups [demo_deal, won_deal] = Inr [left_joins no_lookups demo_deal]"
    by (simp add: r1)
  from h3 have "\<not> like_meta CHR ''a''" by (simp add: lw)
  with r1 r2 t lw show ?thesis by simp
qed

subsection \<open>The derived column\<close>

lemma weighted_ok_store_row: "weighted_ok (store_row sp d)"
  by (simp add: weighted_ok_def store_row_def)

lemma weighted_ok_update_where:
  "\<forall>d \<in> set ds. weighted_ok d \<Longrightarrow> \<forall>d \<in> set (update_where sp i f ds). weighted_ok d"
  by (auto simp: update_where_def weighted_ok_store_row)

lemma post_deal_table:
  "fst (post_deal sp now i b ds) = ds \<or> (\<exists>d. fst (post_deal sp now i b ds) = ds @ [store_row sp d])"
  unfolding post_deal_def Let_def insert_row_def
  by (simp split: option.splits prod.splits) blast

lemma put_deal_table:
  "fst (put_deal sp now i b ds) = ds \<or> (\<exists>f. fst (put_deal sp now i b ds) = update_where sp i f ds)"
  unfolding put_deal_def Let_def
  by (auto split: option.splits list.splits)

lemma patch_status_table:
  "fst (patch_status sp now i s ds) = ds \<or>
   (\<exists>f. fst (patch_status sp now i s ds) = update_where sp i f ds)"
  unfolding patch_status_def Let_def
  by (auto split: option.splits list.splits)

lemma delete_deal_table: "fst (delete_deal i ds) = filter (\<lambda>d. deal_id d \<noteq> i) ds"
  by (simp add: delete_deal_def Let_def split: list.splits)

lemma weighted_ok_post:
  assumes "\<forall>d \<in> set ds. weighted_ok d"
  shows "\<forall>d \<in> set (fst (post_deal sp now i b ds)). weighted_ok d"
  using post_deal_table [of sp now i b ds] assms
  by (auto simp: weighted_ok_store_row)

lemma weighted_ok_put:
  assumes "\<forall>d \<in> set ds. weighted_ok d"
  shows "\<forall>d \<in> set (fst (put_deal sp now i b ds)). weighted_ok d"
  using put_deal_table [of sp now i b ds] assms weighted_ok_update_where [OF assms]
  by metis

lemma weighted_ok_patch:
  assumes "\<forall>d \<in> set ds. weighted_ok d"
  shows "\<forall>d \<in> set (fst (patch_status sp now i s ds)). weighted_ok d"
  using patch_status_table [of sp now i s ds] assms weighted_ok_update_where [OF assms]
  by metis

lemma weighted_ok_delete:
  assumes "\<forall>d \<in> set ds. weighted_ok d"
  shows "\<forall>d \<in> set (fst (delete_deal i ds)). weighted_ok d"
  using assms by (simp add: delete_deal_table)

lemma weighted_ok_handle:
  "\<forall>d \<in> set ds. weighted_ok d \<Longrightarrow> \<forall>d \<in> set (handle sp ds r). weighted_ok d"
proof (cases r)
  case (Create now i b)
  assume "\<forall>d \<in> set ds. weighted_ok d"
  then show ?thesis unfolding Create handle.simps by (rule weighted_ok_post)
next
  case (Update now i b)
  assume "\<forall>d \<in> set ds. weighted_ok d"
  then show ?thesis unfolding Update handle.simps by (rule weighted_ok_put)
next
  case (Transition now i s)
  assume "\<forall>d \<in> set ds. weighted_ok d"
  then show ?thesis unfolding Transition handle.simps by (rule weighted_ok_patch)
next
  case (Delete i)
  assume "\<forall>d \<in> set ds. weighted_ok d"
  then show ?thesis unfolding Delete handle.simps by (rule weighted_ok_delete)
qed

lemma weighted_ok_foldl:
  "\<forall>d \<in> set ds. weighted_ok d \<Longrightarrow> \<forall>d \<in> set (foldl (handle sp) ds rs). weighted_ok d"
proof (induction rs arbitrary: ds)
  case Nil
  then show ?case by simp
next
  case (Cons r rs)
  from weighted_ok_handle [OF Cons.prems] have "\<forall>d \<in> set (handle sp ds r). weighted_ok d" .
  from Cons.IH [OF this] show ?case by simp
qed

lemma weighted_ok_serve: "\<forall>d \<in> set (serve sp rs). weighted_ok d"
  unfolding serve_def by (rule weighted_ok_foldl) simp

lemma list_deals_rows:
  assumes "list_deals js_lower sql_lower qy lk ds = Inr out" and "x \<in> set out"
  shows "fst x \<in> set ds"
proof -
  from assms(1) obtain p where
    "out = map (left_joins lk) (order_by_created_at_desc (filter p ds))"
    by (auto simp: list_deals_def split: option.splits)
  with assms(2) show ?thesis
    by (auto simp: set_order_by fst_left_joins)
qed

lemma get_deal_row:
  assumes "get_deal i lk ds = Inr x"
  shows "fst x \<in> set ds"
proof -
  from assms obtain d rest where ret: "returning i ds = d # rest" and x: "x = left_joins lk d"
    by (auto simp: get_deal_def split: list.splits)
  from returning_hd [OF ret] x show ?thesis
    by (simp add: fst_left_joins)
qed

text \<open>
  C8. In every table that the handlers build from the empty table, each row has
  \<open>weighted_amount = amount * probability / 100\<close>, and so has each row read back
  by the list and by the lookup of one deal. The numbers are exact rationals.
\<close>

theorem weighted_amount_consistent:
  "(\<forall>d \<in> set (serve sp rs). weighted_amount d = amount d * probability d / 100) \<and>
   (\<forall>out. list_deals js_lower sql_lower qy lk (serve sp rs) = Inr out \<longrightarrow>
      (\<forall>x \<in> set out. weighted_amount (fst x) = amount (fst x) * probability (fst x) / 100)) \<and>
   (\<forall>x. get_deal i lk (serve sp rs) = Inr x \<longrightarrow>
      weighted_amount (fst x) = amount (fst x) * probability (fst x) / 100)"
proof (intro conjI allI impI ballI)
  fix d assume "d \<in> set (serve sp rs)"
  with weighted_ok_serve show "weighted_amount d = amount d * probability d / 100"
    unfolding weighted_ok_def by blast
next
  fix out x assume "list_deals js_lower sql_lower qy lk (serve sp rs) = Inr out" and "x \<in> set out"
  then have "fst x \<in> set (serve sp rs)" by (rule list_deals_rows)
  with weighted_ok_serve show "weighted_amount (fst x) = amount (fst x) * probability (fst x) / 100"
    unfolding weighted_ok_def by blast
next
  fix x assume "get_deal i lk (serve sp rs) = Inr x"
  then have "fst x \<in> set (serve sp rs)" by (rule get_deal_row)
  with weighted_ok_serve show "weighted_amount (fst x) = amount (fst x) * probability (fst x) / 100"
    unfolding weighted_ok_def by blast
qed

lemma demo_served:
  "serve (\<lambda>st. 50) demo_requests =
     [\<lparr>deal_id = ''1'', title = ''Offre'', description = None, status = Gagne, amount = 1000,
       probability = 50, weighted_amount = 500, contact_id = None, company_id = None,
       assigned_to = None, expected_close_date = None, closed_at = Some 2, created_at = 1\<rparr>]"
  by (simp add: serve_def demo_requests_def post_deal_def patch_status_def demo_body_def
      truthy_def opt_trim_def trim_def is_ws_def or_else_def or_null_def nullish_def
      array_includes_def ALLOWED_STATUSES_def deal_status_cast_def insert_row_def store_row_def
      update_where_def returning_def patch_set_def closed_at_for_def Let_def)

theorem weighted_amount_consistent_witness:
  "\<exists>x. get_deal ''1'' no_lookups (serve (\<lambda>st. 50) demo_requests) = Inr x \<and>
       amount (fst x) = 1000 \<and> probability (fst x) = 50 \<and> weighted_amount (fst x) = 500"
proof -
  obtain x where run: "get_deal ''1'' no_lookups (serve (\<lambda>st. 50) demo_requests) = Inr x"
    and a: "amount (fst x) = 1000" and p: "probability (fst x) = 50"
    by (simp add: demo_served get_deal_def returning_def fst_left_joins)
  from weighted_amount_consistent [of "\<lambda>st. 50" demo_requests, THEN conjunct2, THEN conjunct2,
      rule_format, OF run]
  have "weighted_amount (fst x) = 500"
    by (simp add: a p)
  with run a p show ?thesis by blast
qed

end
